theory Spec2Isabelle
  imports Complex_Main
begin

section \<open>Numbers\<close>

text \<open>
  A JavaScript number of \<^verbatim>\<open>imagewall.ts\<close> is a binary64 value. The model
  computes over the reals; \<^verbatim>\<open>Math.floor\<close> and \<^verbatim>\<open>Math.round\<close> (which
  rounds a half towards plus infinity) give integral reals. The first pass is given twice:
  over the reals with exact operations, and with its four operations as parameters, so that
  what is proved of it holds of binary64 rounding as well.
\<close>

definition mathFloor :: "real \<Rightarrow> real" where
  "mathFloor w = of_int \<lfloor>w\<rfloor>"

definition mathRound :: "real \<Rightarrow> real" where
  "mathRound w = of_int \<lfloor>w + 1 / 2\<rfloor>"

section \<open>The layout engine (\<^verbatim>\<open>ImageWall.layout\<close>)\<close>

datatype LastRowAlign = AlignLeft | AlignCenter | AlignJustify | AlignRight

text \<open>
  \<^verbatim>\<open>ImgInfo\<close>: the element (its position in \<^verbatim>\<open>this.images\<close>), its aspect
  ratio and its natural size. The natural width and height of an image are unsigned integers.
  A pass starts from the natural sizes that \<^verbatim>\<open>loadImageNaturalSize\<close> has resolved,
  one per item (1 by 1 for an image without a source); an item without an
  \<^verbatim>\<open><img>\<close> makes the pass throw before any row is built, and is not modelled.
\<close>

record ImgInfo =
  el :: nat
  aspect :: real
  naturalW :: nat
  naturalH :: nat

text \<open>\<^verbatim>\<open>const aspect = (naturalW && naturalH) ? (naturalW / naturalH) : 1\<close>\<close>

definition imgInfo :: "nat \<Rightarrow> nat \<times> nat \<Rightarrow> ImgInfo" where
  "imgInfo e sz =
     \<lparr>el = e,
      aspect = (if fst sz \<noteq> 0 \<and> snd sz \<noteq> 0 then real (fst sz) / real (snd sz) else 1),
      naturalW = fst sz, naturalH = snd sz\<rparr>"

definition gatherInfos :: "(nat \<times> nat) list \<Rightarrow> ImgInfo list" where
  "gatherInfos sizes = map (\<lambda>(e, sz). imgInfo e sz) (zip [0..<length sizes] sizes)"

record RowTemp =
  rtItems :: "ImgInfo list"
  floatWidths :: "real list"
  rowHFloat :: real
  rtStretch :: bool

record PositionedRow =
  items :: "ImgInfo list"
  widths :: "real list"
  height :: real
  stretch :: bool

subsection \<open>First pass: greedy row accumulation\<close>

text \<open>
  The state of the \<^verbatim>\<open>for (const info of infos)\<close> loop is the cursor, the running
  aspect sum and the rows closed so far; \<open>rowStep\<close> is the loop body.
\<close>

definition expectedW :: "real \<Rightarrow> real \<Rightarrow> real \<Rightarrow> nat \<Rightarrow> real" where
  "expectedW gap targetH aspectSum count = aspectSum * targetH + gap * (real count - 1)"

definition fullRow :: "real \<Rightarrow> real \<Rightarrow> ImgInfo list \<Rightarrow> real \<Rightarrow> RowTemp" where
  "fullRow containerInner gap cursor aspectSum =
     (let rowH = (containerInner - gap * (real (length cursor) - 1)) / aspectSum
      in \<lparr>rtItems = cursor, floatWidths = map (\<lambda>it. aspect it * rowH) cursor,
          rowHFloat = rowH, rtStretch = True\<rparr>)"

definition rowStep ::
  "real \<Rightarrow> real \<Rightarrow> real \<Rightarrow> ImgInfo list \<times> real \<times> RowTemp list \<Rightarrow> ImgInfo
     \<Rightarrow> ImgInfo list \<times> real \<times> RowTemp list" where
  "rowStep containerInner gap targetH st info =
     (case st of (cursor0, aspectSum0, rowsTemp) \<Rightarrow>
        let cursor = cursor0 @ [info];
            aspectSum = aspectSum0 + aspect info
        in if expectedW gap targetH aspectSum (length cursor) \<ge> containerInner
           then ([], 0, rowsTemp @ [fullRow containerInner gap cursor aspectSum])
           else (cursor, aspectSum, rowsTemp))"

definition accumulate ::
  "real \<Rightarrow> real \<Rightarrow> real \<Rightarrow> ImgInfo list \<Rightarrow> ImgInfo list \<times> real \<times> RowTemp list" where
  "accumulate containerInner gap targetH infos =
     foldl (rowStep containerInner gap targetH) ([], 0, []) infos"

text \<open>The last row, from the items left in the cursor, by \<^verbatim>\<open>opts.lastRowAlign\<close>.\<close>

definition lastRow ::
  "LastRowAlign \<Rightarrow> real \<Rightarrow> real \<Rightarrow> real \<Rightarrow> ImgInfo list \<Rightarrow> RowTemp list" where
  "lastRow align containerInner gap targetH cursor =
     (if cursor \<noteq> [] then
        (if align = AlignJustify
         then [fullRow containerInner gap cursor (foldl (\<lambda>s it. s + aspect it) 0 cursor)]
         else [\<lparr>rtItems = cursor, floatWidths = map (\<lambda>i. aspect i * targetH) cursor,
                rowHFloat = targetH, rtStretch = False\<rparr>])
      else [])"

definition firstPass ::
  "LastRowAlign \<Rightarrow> real \<Rightarrow> real \<Rightarrow> real \<Rightarrow> ImgInfo list \<Rightarrow> RowTemp list" where
  "firstPass align containerInner gap targetH infos =
     (case accumulate containerInner gap targetH infos of
        (cursor, aspectSum, rowsTemp) \<Rightarrow>
          rowsTemp @ lastRow align containerInner gap targetH cursor)"

text \<open>A row is well formed when it has an item and one float width per item.\<close>

definition rowOk :: "RowTemp \<Rightarrow> bool" where
  "rowOk row \<longleftrightarrow> rtItems row \<noteq> [] \<and> length (floatWidths row) = length (rtItems row)"

subsection \<open>Second pass: integer widths\<close>

definition totalGapOf :: "real \<Rightarrow> nat \<Rightarrow> real" where
  "totalGapOf gap n = gap * max 0 (real n - 1)"

definition sumOf :: "real list \<Rightarrow> real" where
  "sumOf xs = foldl (\<lambda>s v. s + v) 0 xs"

text \<open>
  \<^verbatim>\<open>for (let i = floors.length - 1; i >= 0 && toRemove > 0; i--)\<close>: the first argument is
  \<open>i + 1\<close>, so that the loop ends at \<open>0\<close>.
\<close>

fun reduceFloors :: "nat \<Rightarrow> real list \<Rightarrow> real \<Rightarrow> real list" where
  "reduceFloors 0 floors toRemove = floors"
| "reduceFloors (Suc i) floors toRemove =
     (if toRemove > 0 then
        (let dec = min (max 0 (floors ! i - 1)) toRemove
         in if dec > 0
            then reduceFloors i (floors[i := floors ! i - dec]) (toRemove - dec)
            else reduceFloors i floors toRemove)
      else floors)"

record FracEntry =
  idx :: nat
  frac_part :: real

text \<open>
  \<^verbatim>\<open>fractions.sort((a, b) => b.frac - a.frac)\<close>: descending by fraction; the sort of an
  array is stable, so entries with equal fractions keep their order.
\<close>

definition sortFractions :: "FracEntry list \<Rightarrow> FracEntry list" where
  "sortFractions fractions = sort_key (\<lambda>e. - frac_part e) fractions"

text \<open>
  \<^verbatim>\<open>for (let k = 0; k < remaining; k++) add[fractions[k % n].idx]++\<close>
\<close>

function addLoop :: "real \<Rightarrow> nat \<Rightarrow> FracEntry list \<Rightarrow> nat \<Rightarrow> real list \<Rightarrow> real list" where
  "addLoop remaining n fractions k add =
     (if real k < remaining
      then addLoop remaining n fractions (Suc k)
             (add[idx (fractions ! (k mod n)) := add ! idx (fractions ! (k mod n)) + 1])
      else add)"
  by pat_completeness auto
termination
proof (relation "measure (\<lambda>(remaining, n, fractions, k, add). nat \<lceil>remaining\<rceil> - k)")
  show "wf (measure (\<lambda>(remaining, n, fractions, k, add). nat \<lceil>remaining\<rceil> - k))"
    by simp
next
  fix remaining :: real and n :: nat and fractions :: "FracEntry list"
    and k :: nat and add :: "real list"
  assume "real k < remaining"
  then have "nat \<lceil>remaining\<rceil> - Suc k < nat \<lceil>remaining\<rceil> - k"
    by linarith
  then show "((remaining, n, fractions, Suc k,
                add[idx (fractions ! (k mod n)) := add ! idx (fractions ! (k mod n)) + 1]),
               (remaining, n, fractions, k, add))
             \<in> measure (\<lambda>(remaining, n, fractions, k, add). nat \<lceil>remaining\<rceil> - k)"
    by simp
qed

declare addLoop.simps [simp del]

text \<open>
  \<^verbatim>\<open>if (remaining < 0) { ... }\<close>: the floors and the remaining pixels after the
  conservative reduction.
\<close>

definition shrinkFloors :: "real \<Rightarrow> real list \<Rightarrow> real list \<times> real" where
  "shrinkFloors targetInner floors0 =
     (let remaining0 = targetInner - sumOf floors0
      in if remaining0 < 0
         then (let floors = reduceFloors (length floors0) floors0 (- remaining0)
               in (floors, max 0 (targetInner - sumOf floors)))
         else (floors0, remaining0))"

text \<open>
  \<^verbatim>\<open>if (finalSum !== targetInner) finalWidths[finalWidths.length - 1] += (targetInner - finalSum)\<close>
\<close>

definition fixLast :: "real \<Rightarrow> real list \<Rightarrow> real list" where
  "fixLast targetInner finalWidths =
     (let finalSum = sumOf finalWidths
      in if finalSum \<noteq> targetInner
         then finalWidths[length finalWidths - 1 :=
                finalWidths ! (length finalWidths - 1) + (targetInner - finalSum)]
         else finalWidths)"

definition stretchWidths :: "real \<Rightarrow> real \<Rightarrow> RowTemp \<Rightarrow> real list" where
  "stretchWidths containerInner gap row =
     (let n = length (rtItems row);
          totalGap = totalGapOf gap n;
          targetInner = containerInner - totalGap;
          floors0 = map mathFloor (floatWidths row);
          fractions0 = map (\<lambda>i. \<lparr>idx = i, frac_part = floatWidths row ! i - floors0 ! i\<rparr>)
                         [0..<length (floatWidths row)];
          (floors, remaining) = shrinkFloors targetInner floors0;
          fractions = sortFractions fractions0;
          add = addLoop remaining n fractions 0 (replicate n 0);
          finalWidths = map (\<lambda>i. floors ! i + add ! i) [0..<length floors]
      in fixLast targetInner finalWidths)"

definition positionRow :: "real \<Rightarrow> real \<Rightarrow> RowTemp \<Rightarrow> PositionedRow" where
  "positionRow containerInner gap row =
     (if rtStretch row
      then \<lparr>items = rtItems row, widths = stretchWidths containerInner gap row,
            height = max 1 (mathRound (rowHFloat row)), stretch = True\<rparr>
      else \<lparr>items = rtItems row, widths = map (\<lambda>w. max 1 (mathRound w)) (floatWidths row),
            height = max 1 (mathRound (rowHFloat row)), stretch = False\<rparr>)"

definition secondPass :: "real \<Rightarrow> real \<Rightarrow> RowTemp list \<Rightarrow> PositionedRow list" where
  "secondPass containerInner gap rowsTemp = map (positionRow containerInner gap) rowsTemp"

subsection \<open>Defensive check of the last row\<close>

definition rowInnerWidthOf :: "real \<Rightarrow> real list \<Rightarrow> real" where
  "rowInnerWidthOf gap ws = sumOf ws + totalGapOf gap (length ws)"

definition defensiveCheck ::
  "LastRowAlign \<Rightarrow> real \<Rightarrow> real \<Rightarrow> PositionedRow list \<Rightarrow> PositionedRow list" where
  "defensiveCheck align containerInner gap positionedRows =
     (if align \<noteq> AlignJustify \<and> positionedRows \<noteq> [] then
        (let lastR = last positionedRows;
             rowInnerWidth = rowInnerWidthOf gap (widths lastR)
         in butlast positionedRows
              @ [if rowInnerWidth < containerInner then lastR\<lparr>stretch := False\<rparr>
                 else lastR\<lparr>stretch := True\<rparr>])
      else positionedRows)"

definition layoutRows ::
  "LastRowAlign \<Rightarrow> real \<Rightarrow> real \<Rightarrow> real \<Rightarrow> ImgInfo list \<Rightarrow> PositionedRow list" where
  "layoutRows align containerInner gap targetH infos =
     defensiveCheck align containerInner gap
       (secondPass containerInner gap (firstPass align containerInner gap targetH infos))"

subsection \<open>Positioning\<close>

text \<open>
  The style written on an item: all of position, left, top, width, height and margin empty
  (\<open>Cleared\<close>), or absolute with left, top, width and height in pixels and margin 0.
\<close>

datatype ItemStyle = Cleared | Absolute (sLeft: real) (sTop: real) (sWidth: real) (sHeight: real)

definition startX :: "LastRowAlign \<Rightarrow> real \<Rightarrow> real \<Rightarrow> PositionedRow \<Rightarrow> real" where
  "startX align containerInner gap prow =
     (let rowInnerWidth = rowInnerWidthOf gap (widths prow)
      in if \<not> stretch prow \<and> rowInnerWidth < containerInner then
           (if align = AlignCenter then mathRound ((containerInner - rowInnerWidth) / 2)
            else if align = AlignRight then max 0 (containerInner - rowInnerWidth)
            else 0)
         else 0)"

text \<open>
  The inner loop over \<^verbatim>\<open>prow.items[i]\<close> and \<^verbatim>\<open>prow.widths[i]\<close>; the two
  arrays of a row have the same length (\<open>layoutRows_lengths\<close> below).
\<close>

fun placeItems ::
  "real \<Rightarrow> real \<Rightarrow> real \<Rightarrow> (ImgInfo \<times> real) list \<Rightarrow> real \<Rightarrow> (nat \<times> ItemStyle) list" where
  "placeItems gap y h [] x = []"
| "placeItems gap y h ((info, w) # rest) x =
     (el info, Absolute x y w h) # placeItems gap y h rest (x + w + gap)"

fun positionRows ::
  "LastRowAlign \<Rightarrow> real \<Rightarrow> real \<Rightarrow> PositionedRow list \<Rightarrow> real
     \<Rightarrow> (nat \<times> ItemStyle) list \<times> real" where
  "positionRows align containerInner gap [] y = ([], y)"
| "positionRows align containerInner gap (prow # rest) y =
     (let here = placeItems gap y (height prow) (zip (items prow) (widths prow))
                   (startX align containerInner gap prow);
          more = positionRows align containerInner gap rest (y + height prow + gap)
      in (here @ fst more, snd more))"


definition writeStyles :: "(nat \<Rightarrow> ItemStyle) \<Rightarrow> (nat \<times> ItemStyle) list \<Rightarrow> nat \<Rightarrow> ItemStyle" where
  "writeStyles styles rects = foldl (\<lambda>st (e, r). st(e := r)) styles rects"

subsection \<open>The arithmetic of the first pass\<close>

text \<open>
  The first pass divides natural sizes, adds and multiplies aspect ratios and compares the
  result with the inner width: there the rounding of every operation matters. Its four
  operations are parameters of the model, given as a record; \<open>exactArith\<close> computes over
  the reals, \<open>doubleArith\<close> rounds every result to binary64 as the program does.
\<close>

record Arith =
  fadd :: "real \<Rightarrow> real \<Rightarrow> real"
  fsub :: "real \<Rightarrow> real \<Rightarrow> real"
  fmul :: "real \<Rightarrow> real \<Rightarrow> real"
  fdiv :: "real \<Rightarrow> real \<Rightarrow> real"

definition exactArith :: Arith where
  "exactArith = \<lparr>fadd = (\<lambda>a b. a + b), fsub = (\<lambda>a b. a - b),
                  fmul = (\<lambda>a b. a * b), fdiv = (\<lambda>a b. a / b)\<rparr>"

text \<open>
  Rounding to binary64, to nearest with ties to even: a number of magnitude in
  \<open>[2 ^ e, 2 ^ (e + 1))\<close> is rounded to a multiple of \<open>2 ^ (e - 52)\<close>, the exponent
  \<open>e\<close> found by a scan from 1023 down to -1022; below \<open>2 ^ -1022\<close> the multiples are
  those of \<open>2 ^ -1074\<close>. Overflow to \<^verbatim>\<open>Infinity\<close>, division by zero,
  \<^verbatim>\<open>NaN\<close> and the sign of zero are not modelled.
\<close>

definition roundHalfEven :: "real \<Rightarrow> int" where
  "roundHalfEven y =
     (let f = \<lfloor>y\<rfloor>; d = y - of_int f
      in if d < 1 / 2 then f else if 1 / 2 < d then f + 1 else if even f then f else f + 1)"

fun expScan :: "nat \<Rightarrow> int \<Rightarrow> real \<Rightarrow> int" where
  "expScan 0 e x = e"
| "expScan (Suc n) e x = (if 2 powi e \<le> \<bar>x\<bar> then e else expScan n (e - 1) x)"

definition binExp :: "real \<Rightarrow> int" where
  "binExp x = expScan 2045 1023 x"

definition toDouble :: "real \<Rightarrow> real" where
  "toDouble x =
     (if \<bar>x\<bar> < 2 powi (- 1022)
      then of_int (roundHalfEven (x / 2 powi (- 1074))) * 2 powi (- 1074)
      else of_int (roundHalfEven (x / 2 powi (binExp x - 52))) * 2 powi (binExp x - 52))"

definition doubleArith :: Arith where
  "doubleArith = \<lparr>fadd = (\<lambda>a b. toDouble (a + b)), fsub = (\<lambda>a b. toDouble (a - b)),
                   fmul = (\<lambda>a b. toDouble (a * b)), fdiv = (\<lambda>a b. toDouble (a / b))\<rparr>"

subsection \<open>The first pass in a given arithmetic\<close>

text \<open>
  The definitions of the first pass again, line by line, with the operations of
  \<open>ar\<close>. The count \<^verbatim>\<open>cursor.length - 1\<close> is an integer and exact.
\<close>

definition imgInfoWith :: "Arith \<Rightarrow> nat \<Rightarrow> nat \<times> nat \<Rightarrow> ImgInfo" where
  "imgInfoWith ar e sz =
     \<lparr>el = e,
      aspect = (if fst sz \<noteq> 0 \<and> snd sz \<noteq> 0 then fdiv ar (real (fst sz)) (real (snd sz)) else 1),
      naturalW = fst sz, naturalH = snd sz\<rparr>"

definition gatherInfosWith :: "Arith \<Rightarrow> (nat \<times> nat) list \<Rightarrow> ImgInfo list" where
  "gatherInfosWith ar sizes =
     map (\<lambda>(e, sz). imgInfoWith ar e sz) (zip [0..<length sizes] sizes)"

text \<open>
  \<^verbatim>\<open>const containerInner = Math.max(1, Math.floor(rect.width - padLeft - padRight))\<close>
\<close>

definition containerInnerWith :: "Arith \<Rightarrow> real \<Rightarrow> real \<Rightarrow> real \<Rightarrow> real" where
  "containerInnerWith ar rectWidth padLeft padRight =
     max 1 (mathFloor (fsub ar (fsub ar rectWidth padLeft) padRight))"

text \<open>
  \<^verbatim>\<open>aspectSum\<close> after the items of a cursor: \<^verbatim>\<open>aspectSum += info.aspect\<close> from 0,
  item by item.
\<close>

definition runningSum :: "Arith \<Rightarrow> ImgInfo list \<Rightarrow> real" where
  "runningSum ar its = foldl (\<lambda>s it. fadd ar s (aspect it)) 0 its"

definition expectedWWith :: "Arith \<Rightarrow> real \<Rightarrow> real \<Rightarrow> real \<Rightarrow> nat \<Rightarrow> real" where
  "expectedWWith ar gap targetH aspectSum count =
     fadd ar (fmul ar aspectSum targetH) (fmul ar gap (real count - 1))"

definition fullRowWith :: "Arith \<Rightarrow> real \<Rightarrow> real \<Rightarrow> ImgInfo list \<Rightarrow> real \<Rightarrow> RowTemp" where
  "fullRowWith ar containerInner gap cursor aspectSum =
     (let rowH = fdiv ar (fsub ar containerInner (fmul ar gap (real (length cursor) - 1)))
                         aspectSum
      in \<lparr>rtItems = cursor, floatWidths = map (\<lambda>it. fmul ar (aspect it) rowH) cursor,
          rowHFloat = rowH, rtStretch = True\<rparr>)"

definition rowStepWith ::
  "Arith \<Rightarrow> real \<Rightarrow> real \<Rightarrow> real \<Rightarrow> ImgInfo list \<times> real \<times> RowTemp list \<Rightarrow> ImgInfo
     \<Rightarrow> ImgInfo list \<times> real \<times> RowTemp list" where
  "rowStepWith ar containerInner gap targetH st info =
     (case st of (cursor0, aspectSum0, rowsTemp) \<Rightarrow>
        let cursor = cursor0 @ [info];
            aspectSum = fadd ar aspectSum0 (aspect info)
        in if expectedWWith ar gap targetH aspectSum (length cursor) \<ge> containerInner
           then ([], 0, rowsTemp @ [fullRowWith ar containerInner gap cursor aspectSum])
           else (cursor, aspectSum, rowsTemp))"

definition accumulateWith ::
  "Arith \<Rightarrow> real \<Rightarrow> real \<Rightarrow> real \<Rightarrow> ImgInfo list \<Rightarrow> ImgInfo list \<times> real \<times> RowTemp list" where
  "accumulateWith ar containerInner gap targetH infos =
     foldl (rowStepWith ar containerInner gap targetH) ([], 0, []) infos"

definition lastRowWith ::
  "Arith \<Rightarrow> LastRowAlign \<Rightarrow> real \<Rightarrow> real \<Rightarrow> real \<Rightarrow> ImgInfo list \<Rightarrow> RowTemp list" where
  "lastRowWith ar align containerInner gap targetH cursor =
     (if cursor \<noteq> [] then
        (if align = AlignJustify
         then [fullRowWith ar containerInner gap cursor
                 (foldl (\<lambda>s it. fadd ar s (aspect it)) 0 cursor)]
         else [\<lparr>rtItems = cursor, floatWidths = map (\<lambda>i. fmul ar (aspect i) targetH) cursor,
                rowHFloat = targetH, rtStretch = False\<rparr>])
      else [])"

definition firstPassWith ::
  "Arith \<Rightarrow> LastRowAlign \<Rightarrow> real \<Rightarrow> real \<Rightarrow> real \<Rightarrow> ImgInfo list \<Rightarrow> RowTemp list" where
  "firstPassWith ar align containerInner gap targetH infos =
     (case accumulateWith ar containerInner gap targetH infos of
        (cursor, aspectSum, rowsTemp) \<Rightarrow>
          rowsTemp @ lastRowWith ar align containerInner gap targetH cursor)"

subsection \<open>The whole pass\<close>

text \<open>
  The rows of a pass: the first pass in the arithmetic \<open>ar\<close>, then the second pass and the
  defensive check. With an integer gap the second pass, the check and the positioning add and
  subtract integers, and a float width minus its floor is exact in binary64; they are
  computed over the reals.
\<close>

definition layoutRowsWith ::
  "Arith \<Rightarrow> LastRowAlign \<Rightarrow> real \<Rightarrow> real \<Rightarrow> real \<Rightarrow> ImgInfo list \<Rightarrow> PositionedRow list" where
  "layoutRowsWith ar align containerInner gap targetH infos =
     defensiveCheck align containerInner gap
       (secondPass containerInner gap (firstPassWith ar align containerInner gap targetH infos))"



subsection \<open>What the accumulation loop maintains\<close>

text \<open>
  A closed row has reached the container width with its last item and with no shorter
  prefix; the open cursor has not reached it with any prefix.
\<close>

definition closedRow :: "real \<Rightarrow> real \<Rightarrow> real \<Rightarrow> RowTemp \<Rightarrow> bool" where
  "closedRow containerInner gap targetH row \<longleftrightarrow>
     rtItems row \<noteq> [] \<and> rtStretch row \<and>
     0 < sum_list (map aspect (rtItems row)) \<and>
     containerInner \<le> expectedW gap targetH (sum_list (map aspect (rtItems row)))
                         (length (rtItems row)) \<and>
     (\<forall>k. 0 < k \<and> k < length (rtItems row) \<longrightarrow>
          expectedW gap targetH (sum_list (map aspect (take k (rtItems row)))) k
            < containerInner) \<and>
     rowHFloat row = (containerInner - gap * (real (length (rtItems row)) - 1))
                       / sum_list (map aspect (rtItems row)) \<and>
     floatWidths row = map (\<lambda>it. aspect it * rowHFloat row) (rtItems row)"

definition openCursor :: "real \<Rightarrow> real \<Rightarrow> real \<Rightarrow> ImgInfo list \<Rightarrow> bool" where
  "openCursor containerInner gap targetH cursor \<longleftrightarrow>
     (\<forall>k. 0 < k \<and> k \<le> length cursor \<longrightarrow>
          expectedW gap targetH (sum_list (map aspect (take k cursor))) k < containerInner)"

definition accInv ::
  "real \<Rightarrow> real \<Rightarrow> real \<Rightarrow> ImgInfo list \<Rightarrow> ImgInfo list \<times> real \<times> RowTemp list \<Rightarrow> bool" where
  "accInv containerInner gap targetH pre st \<longleftrightarrow>
     (case st of (cursor, aspectSum, rowsTemp) \<Rightarrow>
        concat (map rtItems rowsTemp) @ cursor = pre \<and>
        aspectSum = sum_list (map aspect cursor) \<and>
        (\<forall>row \<in> set rowsTemp. closedRow containerInner gap targetH row) \<and>
        openCursor containerInner gap targetH cursor)"

text \<open>The same for the loop in a given arithmetic, with the sums and widths as computed.\<close>

definition closedRowWith :: "Arith \<Rightarrow> real \<Rightarrow> real \<Rightarrow> real \<Rightarrow> RowTemp \<Rightarrow> bool" where
  "closedRowWith ar containerInner gap targetH row \<longleftrightarrow>
     rtItems row \<noteq> [] \<and> rtStretch row \<and>
     containerInner \<le> expectedWWith ar gap targetH (runningSum ar (rtItems row))
                         (length (rtItems row)) \<and>
     (\<forall>k. 0 < k \<and> k < length (rtItems row) \<longrightarrow>
          expectedWWith ar gap targetH (runningSum ar (take k (rtItems row))) k
            < containerInner) \<and>
     rowHFloat row =
       fdiv ar (fsub ar containerInner (fmul ar gap (real (length (rtItems row)) - 1)))
               (runningSum ar (rtItems row)) \<and>
     floatWidths row = map (\<lambda>it. fmul ar (aspect it) (rowHFloat row)) (rtItems row)"

definition openCursorWith :: "Arith \<Rightarrow> real \<Rightarrow> real \<Rightarrow> real \<Rightarrow> ImgInfo list \<Rightarrow> bool" where
  "openCursorWith ar containerInner gap targetH cursor \<longleftrightarrow>
     (\<forall>k. 0 < k \<and> k \<le> length cursor \<longrightarrow>
          expectedWWith ar gap targetH (runningSum ar (take k cursor)) k < containerInner)"

definition accInvWith ::
  "Arith \<Rightarrow> real \<Rightarrow> real \<Rightarrow> real \<Rightarrow> ImgInfo list
     \<Rightarrow> ImgInfo list \<times> real \<times> RowTemp list \<Rightarrow> bool" where
  "accInvWith ar containerInner gap targetH pre st \<longleftrightarrow>
     (case st of (cursor, aspectSum, rowsTemp) \<Rightarrow>
        concat (map rtItems rowsTemp) @ cursor = pre \<and>
        aspectSum = runningSum ar cursor \<and>
        (\<forall>row \<in> set rowsTemp. closedRowWith ar containerInner gap targetH row) \<and>
        openCursorWith ar containerInner gap targetH cursor)"

subsection \<open>The extra pixels of a stretched row\<close>






subsection \<open>Inputs of the worked scenarios\<close>


text \<open>Two items with aspect ratios 1 and 1.3, for a short last row.\<close>

definition scenarioB :: "(nat \<times> nat) list" where
  "scenarioB = [(1, 1), (13, 10)]"

text \<open>
  Three items whose widths at a target height of 300 are 333.5, 333.5 and 332.9: together
  just short of 1000, but 1001 once rounded.
\<close>

definition scenarioRounded :: "(nat \<times> nat) list" where
  "scenarioRounded = [(667, 600), (667, 600), (3329, 3000)]"

text \<open>A thin image of 5 by 1000 pixels followed by a wide one of 1000 by 100.\<close>

definition scenarioThin :: "(nat \<times> nat) list" where
  "scenarioThin = [(5, 1000), (1000, 100)]"

text \<open>
  Items of aspect ratios 3:4, 4:3 and 1:1. At a target height of 180 the first two are 375
  wide together over the reals, and 374.99999999999994 in binary64.
\<close>

definition scenarioBoundary :: "(nat \<times> nat) list" where
  "scenarioBoundary = [(3, 4), (4, 3), (1, 1)]"


section \<open>The viewer (\<^verbatim>\<open>LightBox\<close>)\<close>

text \<open>
  An index is an integer or \<^verbatim>\<open>NaN\<close>, which \<^verbatim>\<open>%\<close> gives for a zero divisor
  (indices come from \<^verbatim>\<open>indexOf\<close>, from \<^verbatim>\<open>next\<close> and \<^verbatim>\<open>prev\<close>, or from
  the caller; fractions are left out). Every comparison with \<^verbatim>\<open>NaN\<close> is false;
  \<^verbatim>\<open>%\<close> takes the sign of the dividend.
\<close>

datatype jsnum = Num int | NaN

fun jsAdd :: "jsnum \<Rightarrow> jsnum \<Rightarrow> jsnum" where
  "jsAdd (Num a) (Num b) = Num (a + b)"
| "jsAdd _ _ = NaN"

fun jsSub :: "jsnum \<Rightarrow> jsnum \<Rightarrow> jsnum" where
  "jsSub (Num a) (Num b) = Num (a - b)"
| "jsSub _ _ = NaN"

fun jsRem :: "jsnum \<Rightarrow> jsnum \<Rightarrow> jsnum" where
  "jsRem (Num a) (Num b) = (if b = 0 then NaN else Num (sgn a * (\<bar>a\<bar> mod \<bar>b\<bar>)))"
| "jsRem _ _ = NaN"

fun jsLess :: "jsnum \<Rightarrow> jsnum \<Rightarrow> bool" where
  "jsLess (Num a) (Num b) = (a < b)"
| "jsLess _ _ = False"

fun jsGreaterEq :: "jsnum \<Rightarrow> jsnum \<Rightarrow> bool" where
  "jsGreaterEq (Num a) (Num b) = (a \<ge> b)"
| "jsGreaterEq _ _ = False"

text \<open>\<^verbatim>\<open>xs[index]\<close>: \<open>None\<close> is \<^verbatim>\<open>undefined\<close>.\<close>

fun jsIndex :: "'a list \<Rightarrow> jsnum \<Rightarrow> 'a option" where
  "jsIndex xs (Num i) = (if 0 \<le> i \<and> i < int (length xs) then Some (xs ! nat i) else None)"
| "jsIndex xs NaN = None"

text \<open>
  A gallery item: \<^verbatim>\<open>dataset.src\<close> and \<^verbatim>\<open>dataset.caption\<close>, each absent or a
  string. A string is truthy when it is present and not empty.
\<close>

record Wrapper =
  dataSrc :: "string option"
  dataCaption :: "string option"

definition truthy :: "string option \<Rightarrow> bool" where
  "truthy v = (case v of None \<Rightarrow> False | Some t \<Rightarrow> t \<noteq> [])"

text \<open>
  What the \<^verbatim>\<open>onload\<close> closure of \<^verbatim>\<open>show\<close> captures: \<^verbatim>\<open>thisLoad\<close>, the
  caption, and the two layers \<^verbatim>\<open>next\<close> and \<^verbatim>\<open>curr\<close> (by their position in
  \<^verbatim>\<open>imgEls\<close>).
\<close>

record Handler =
  thisLoad :: int
  hCaption :: string
  hNext :: nat
  hCurr :: nat

record ImgEl =
  visible :: bool
  src :: string
  onload :: "Handler option"

record LightBox =
  images :: "Wrapper list"
  currentIndex :: jsnum
  activeLayer :: nat
  loadId :: int
  modalOpen :: bool
  imgEls :: "ImgEl list"
  captionText :: string
  captionVisible :: bool
  preloaded :: "string list"

definition newLightBox :: "Wrapper list \<Rightarrow> LightBox" where
  "newLightBox imgs =
     \<lparr>images = imgs, currentIndex = Num 0, activeLayer = 0, loadId = 0, modalOpen = False,
      imgEls = [\<lparr>visible = False, src = [], onload = None\<rparr>,
                \<lparr>visible = False, src = [], onload = None\<rparr>],
      captionText = [], captionVisible = False, preloaded = []\<rparr>"

datatype error = TypeError

text \<open>A call returns or throws; either way the viewer is left in a state.\<close>

datatype outcome = Returned LightBox | Threw error LightBox

fun stateOf :: "outcome \<Rightarrow> LightBox" where
  "stateOf (Returned lb) = lb"
| "stateOf (Threw e lb) = lb"

definition lbShow :: "jsnum \<Rightarrow> LightBox \<Rightarrow> outcome" where
  "lbShow index lb =
     (if jsLess index (Num 0) \<or> jsGreaterEq index (Num (int (length (images lb))))
      then Returned lb
      else
        (let lb1 = lb\<lparr>currentIndex := index\<rparr> in
         case jsIndex (images lb1) index of
           None \<Rightarrow> Threw TypeError lb1
         | Some wrapper \<Rightarrow>
             (let caption = (case dataCaption wrapper of None \<Rightarrow> [] | Some c \<Rightarrow> c) in
              if \<not> truthy (dataSrc wrapper) then Returned lb1
              else
                (let lb2 = lb1\<lparr>modalOpen := True\<rparr>;
                     curr = activeLayer lb2;
                     nxt = 1 - activeLayer lb2;
                     lb3 = lb2\<lparr>loadId := loadId lb2 + 1\<rparr>;
                     h = \<lparr>thisLoad = loadId lb3, hCaption = caption, hNext = nxt, hCurr = curr\<rparr>
                 in Returned
                      (lb3\<lparr>imgEls := (imgEls lb3)
                              [nxt := \<lparr>visible = False, src = the (dataSrc wrapper),
                                      onload = Some h\<rparr>]\<rparr>)))))"

text \<open>The \<^verbatim>\<open>onload\<close> closure, run when the load completes.\<close>

definition onloadHandler :: "Handler \<Rightarrow> LightBox \<Rightarrow> outcome" where
  "onloadHandler h lb =
     (if thisLoad h \<noteq> loadId lb then Returned lb
      else
        (let els1 = (imgEls lb)[hNext h := (imgEls lb ! hNext h)\<lparr>visible := True\<rparr>];
             els2 = els1[hCurr h := (els1 ! hCurr h)\<lparr>visible := False\<rparr>];
             lb1 = lb\<lparr>imgEls := els2, activeLayer := 1 - activeLayer lb\<rparr>;
             lb2 = (if hCaption h \<noteq> []
                    then lb1\<lparr>captionText := hCaption h, captionVisible := True\<rparr>
                    else lb1\<lparr>captionText := [], captionVisible := False\<rparr>);
             nextIndex = jsRem (jsAdd (currentIndex lb2) (Num 1))
                               (Num (int (length (images lb2))))
         in case jsIndex (images lb2) nextIndex of
              None \<Rightarrow> Threw TypeError lb2
            | Some preloadWrapper \<Rightarrow>
                (if truthy (dataSrc preloadWrapper)
                 then Returned (lb2\<lparr>preloaded := preloaded lb2 @ [the (dataSrc preloadWrapper)]\<rparr>)
                 else Returned lb2)))"

definition lbHide :: "LightBox \<Rightarrow> LightBox" where
  "lbHide lb =
     lb\<lparr>modalOpen := False, captionVisible := False,
        imgEls := map (\<lambda>img. img\<lparr>visible := False\<rparr>) (imgEls lb),
        loadId := loadId lb + 1\<rparr>"

definition lbNext :: "LightBox \<Rightarrow> outcome" where
  "lbNext lb =
     lbShow (jsRem (jsAdd (currentIndex lb) (Num 1)) (Num (int (length (images lb))))) lb"

definition lbPrev :: "LightBox \<Rightarrow> outcome" where
  "lbPrev lb =
     lbShow (jsRem (jsAdd (jsSub (currentIndex lb) (Num 1)) (Num (int (length (images lb)))))
                   (Num (int (length (images lb))))) lb"

text \<open>
  What can happen to a viewer: a call of one of its four methods, or a load or error event on
  one of the two layers, which runs the handler installed there.
\<close>

datatype event = Show jsnum | Next | Prev | Hide | Load nat | LoadError nat

fun step :: "event \<Rightarrow> LightBox \<Rightarrow> outcome" where
  "step (Show index) lb = lbShow index lb"
| "step Next lb = lbNext lb"
| "step Prev lb = lbPrev lb"
| "step Hide lb = Returned (lbHide lb)"
| "step (Load k) lb =
     (if k < length (imgEls lb) then
        (case onload (imgEls lb ! k) of None \<Rightarrow> Returned lb | Some h \<Rightarrow> onloadHandler h lb)
      else Returned lb)"
| "step (LoadError k) lb = Returned lb"

definition run :: "event list \<Rightarrow> LightBox \<Rightarrow> LightBox" where
  "run events lb = foldl (\<lambda>s e. stateOf (step e s)) lb events"

text \<open>
  The active layer is 0 or 1 (it starts at 0 and is only ever replaced by
  \<^verbatim>\<open>1 - this.activeLayer\<close>), and there are two layers.
\<close>

definition layersOk :: "LightBox \<Rightarrow> bool" where
  "layersOk lb \<longleftrightarrow> activeLayer lb \<le> 1 \<and> length (imgEls lb) = 2"

subsection \<open>Calls that start a load\<close>

text \<open>
  \<^verbatim>\<open>show(index)\<close> starts a load when the index names an item and the item has a
  full-resolution reference. A call supersedes the loads in flight when it starts a load of
  its own or closes the viewer: these are the calls that increment \<^verbatim>\<open>loadId\<close>.
\<close>

definition issuesLoad :: "jsnum \<Rightarrow> LightBox \<Rightarrow> bool" where
  "issuesLoad index lb =
     (case jsIndex (images lb) index of
        None \<Rightarrow> False
      | Some wrapper \<Rightarrow> truthy (dataSrc wrapper))"

fun supersedes :: "event \<Rightarrow> LightBox \<Rightarrow> bool" where
  "supersedes (Show index) lb = issuesLoad index lb"
| "supersedes Next lb =
     issuesLoad (jsRem (jsAdd (currentIndex lb) (Num 1)) (Num (int (length (images lb))))) lb"
| "supersedes Prev lb =
     issuesLoad (jsRem (jsAdd (jsSub (currentIndex lb) (Num 1)) (Num (int (length (images lb)))))
                       (Num (int (length (images lb))))) lb"
| "supersedes Hide lb = True"
| "supersedes (Load k) lb = False"
| "supersedes (LoadError k) lb = False"

subsection \<open>A gallery for the worked scenarios\<close>

text \<open>Two items: the first with a full-resolution reference and a caption, the second with neither.\<close>

definition galleryD :: "Wrapper list" where
  "galleryD = [\<lparr>dataSrc = Some ''a.jpg'', dataCaption = Some ''A''\<rparr>,
               \<lparr>dataSrc = None, dataCaption = None\<rparr>]"

section \<open>Facts about the layout engine\<close>



lemma length_reduceFloors [simp]: "length (reduceFloors i floors t) = length floors"
  by (induction i floors t rule: reduceFloors.induct) (auto simp: Let_def)

lemma length_fixLast [simp]: "length (fixLast t fw) = length fw"
  by (simp add: fixLast_def Let_def)


lemma length_shrinkFloors [simp]: "length (fst (shrinkFloors t fl)) = length fl"
  by (simp add: shrinkFloors_def Let_def)


lemma length_stretchWidths: "length (stretchWidths containerInner gap row) = length (floatWidths row)"
proof -
  obtain floors remaining
    where sf: "shrinkFloors (containerInner - totalGapOf gap (length (rtItems row)))
                 (map mathFloor (floatWidths row)) = (floors, remaining)"
    by (cases "shrinkFloors (containerInner - totalGapOf gap (length (rtItems row)))
                 (map mathFloor (floatWidths row))")
  have "length floors = length (floatWidths row)"
    using length_shrinkFloors[of "containerInner - totalGapOf gap (length (rtItems row))"
        "map mathFloor (floatWidths row)"] sf by simp
  then show ?thesis
    by (simp add: stretchWidths_def Let_def sf)
qed

lemma fullRow_ok: "cursor \<noteq> [] \<Longrightarrow> rowOk (fullRow cI gap cursor s)"
  by (simp add: fullRow_def rowOk_def Let_def)

lemma rowStep_ok:
  assumes "\<forall>r\<in>set (snd (snd st)). rowOk r"
  shows "\<forall>r\<in>set (snd (snd (rowStep cI gap targetH st info))). rowOk r"
  using assms by (cases st) (auto simp: rowStep_def Let_def fullRow_ok)

lemma foldl_rowStep_ok:
  "\<forall>r\<in>set (snd (snd st)). rowOk r \<Longrightarrow>
   \<forall>r\<in>set (snd (snd (foldl (rowStep cI gap targetH) st infos))). rowOk r"
proof (induction infos arbitrary: st)
  case Nil then show ?case by simp
next
  case (Cons a infos)
  show ?case using Cons.IH[OF rowStep_ok[OF Cons.prems]] by simp
qed

lemma firstPass_ok: "\<forall>r\<in>set (firstPass align cI gap targetH infos). rowOk r"
proof -
  have "\<forall>r\<in>set (snd (snd (accumulate cI gap targetH infos))). rowOk r"
    unfolding accumulate_def by (rule foldl_rowStep_ok) simp
  moreover have "\<forall>r\<in>set (lastRow align cI gap targetH c). rowOk r" for c
    by (cases "c = []") (simp_all add: lastRow_def fullRow_ok, simp add: rowOk_def)
  ultimately show ?thesis
    by (cases "accumulate cI gap targetH infos") (auto simp: firstPass_def)
qed

lemma mathFloor_Ints [simp]: "mathFloor w \<in> \<int>"
  by (simp add: mathFloor_def)

lemma mathRound_Ints [simp]: "mathRound w \<in> \<int>"
  by (simp add: mathRound_def)









lemma addLoop_step:
  "real k < remaining \<Longrightarrow>
   addLoop remaining n fractions k add =
     addLoop remaining n fractions (Suc k)
       (add[idx (fractions ! (k mod n)) := add ! idx (fractions ! (k mod n)) + 1])"
  by (subst addLoop.simps) (simp only: if_True)

lemma addLoop_done: "\<not> real k < remaining \<Longrightarrow> addLoop remaining n fractions k add = add"
  by (subst addLoop.simps) (simp only: if_False)


lemma length_addLoop [simp]: "length (addLoop remaining n fractions k add) = length add"
proof (induction remaining n fractions k add rule: addLoop.induct)
  case (1 remaining n fractions k add)
  show ?case
  proof (cases "real k < remaining")
    case True
    then show ?thesis using 1[OF True] by (simp only: addLoop_step[OF True] length_list_update)
  next
    case False
    show ?thesis by (simp only: addLoop_done[OF False])
  qed
qed









text \<open>
  The rows of C1 are those that the first pass marks. Under a policy other than Justify the
  defensive check can afterwards flag the last row as stretched because its rounded widths
  reach the container; such a row keeps its rounded widths, which the distribution step
  never saw.
\<close>

lemma reflagged_last_row_keeps_rounded_widths:
  "map rtStretch (firstPass AlignLeft 1000 0 300 (gatherInfos scenarioRounded)) = [False] \<and>
   map widths (layoutRows AlignLeft 1000 0 300 (gatherInfos scenarioRounded))
     = [[334, 334, 333]] \<and>
   map stretch (layoutRows AlignLeft 1000 0 300 (gatherInfos scenarioRounded)) = [True]"
  by (simp add: scenarioRounded_def gatherInfos_def imgInfo_def upt_rec layoutRows_def
        firstPass_def accumulate_def rowStep_def expectedW_def lastRow_def secondPass_def
        positionRow_def mathRound_def defensiveCheck_def rowInnerWidthOf_def sumOf_def
        totalGapOf_def)

lemma aspect_imgInfo_pos: "0 < aspect (imgInfo e sz)"
  by (simp add: imgInfo_def)

lemma gatherInfos_pos: "\<forall>i \<in> set (gatherInfos sizes). 0 < aspect i"
  by (auto simp: gatherInfos_def aspect_imgInfo_pos)

lemma sum_aspect_nonneg:
  "\<forall>i \<in> set its. 0 < aspect i \<Longrightarrow> 0 \<le> sum_list (map aspect its)"
  by (induction its) (simp_all add: add_nonneg_nonneg less_imp_le)

lemma sum_aspect_pos:
  assumes "its \<noteq> []" and "\<forall>i \<in> set its. 0 < aspect i"
  shows "0 < sum_list (map aspect its)"
proof (cases its)
  case Nil
  with assms(1) show ?thesis by simp
next
  case (Cons a rest)
  with assms(2) have "0 < aspect a" and "0 \<le> sum_list (map aspect rest)"
    by (simp_all add: sum_aspect_nonneg)
  then show ?thesis using Cons by (simp add: add_pos_nonneg)
qed

lemma closedRow_fullRow:
  assumes "openCursor cI gap targetH cursor"
    and "\<forall>i \<in> set (cursor @ [info]). 0 < aspect i"
    and "cI \<le> expectedW gap targetH (sum_list (map aspect (cursor @ [info]))) (length (cursor @ [info]))"
  shows "closedRow cI gap targetH
           (fullRow cI gap (cursor @ [info]) (sum_list (map aspect (cursor @ [info]))))"
proof -
  have pos: "0 < sum_list (map aspect (cursor @ [info]))"
    using assms(2) by (intro sum_aspect_pos) simp_all
  have pre: "\<forall>k. 0 < k \<and> k < length (cursor @ [info]) \<longrightarrow>
          expectedW gap targetH (sum_list (map aspect (take k (cursor @ [info])))) k < cI"
    using assms(1) by (simp add: openCursor_def)
  show ?thesis
    unfolding closedRow_def fullRow_def Let_def
    using pos pre assms(3) by simp
qed

lemma openCursor_snoc:
  assumes "openCursor cI gap targetH cursor"
    and "\<not> cI \<le> expectedW gap targetH (sum_list (map aspect (cursor @ [info]))) (length (cursor @ [info]))"
  shows "openCursor cI gap targetH (cursor @ [info])"
  unfolding openCursor_def
proof (intro allI impI)
  fix k assume k: "0 < k \<and> k \<le> length (cursor @ [info])"
  show "expectedW gap targetH (sum_list (map aspect (take k (cursor @ [info])))) k < cI"
  proof (cases "k \<le> length cursor")
    case True
    then show ?thesis using assms(1) k by (simp add: openCursor_def)
  next
    case False
    then have "k = length (cursor @ [info])" using k by simp
    then show ?thesis using assms(2) by simp
  qed
qed

lemma accInv_step:
  assumes "accInv cI gap targetH pre st" and "\<forall>i \<in> set (pre @ [info]). 0 < aspect i"
  shows "accInv cI gap targetH (pre @ [info]) (rowStep cI gap targetH st info)"
proof -
  obtain cursor aspectSum rowsTemp where st: "st = (cursor, aspectSum, rowsTemp)"
    by (cases st)
  from assms(1) st have part: "concat (map rtItems rowsTemp) @ cursor = pre"
    and s: "aspectSum = sum_list (map aspect cursor)"
    and rows: "\<forall>row \<in> set rowsTemp. closedRow cI gap targetH row"
    and cur: "openCursor cI gap targetH cursor"
    by (simp_all add: accInv_def)
  have s': "aspectSum + aspect info = sum_list (map aspect (cursor @ [info]))"
    using s by simp
  have posc: "\<forall>i \<in> set (cursor @ [info]). 0 < aspect i"
    using assms(2) part by auto
  show ?thesis
  proof (cases "cI \<le> expectedW gap targetH (sum_list (map aspect (cursor @ [info]))) (length (cursor @ [info]))")
    case True
    have step: "rowStep cI gap targetH st info =
          ([], 0, rowsTemp @ [fullRow cI gap (cursor @ [info]) (sum_list (map aspect (cursor @ [info])))])"
      using True s by (simp add: rowStep_def st Let_def)
    have cr: "closedRow cI gap targetH (fullRow cI gap (cursor @ [info]) (sum_list (map aspect (cursor @ [info]))))"
      by (rule closedRow_fullRow[OF cur posc True])
    have it: "rtItems (fullRow cI gap (cursor @ [info]) (sum_list (map aspect (cursor @ [info])))) = cursor @ [info]"
      by (simp add: fullRow_def Let_def)
    show ?thesis
      unfolding step accInv_def
      using part rows cr it by (simp add: openCursor_def)
  next
    case False
    have step: "rowStep cI gap targetH st info = (cursor @ [info], sum_list (map aspect (cursor @ [info])), rowsTemp)"
      using False s by (simp add: rowStep_def st Let_def)
    show ?thesis
      unfolding step accInv_def
      using part rows openCursor_snoc[OF cur False] by simp
  qed
qed

lemma accInv_accumulate:
  "\<forall>i \<in> set infos. 0 < aspect i \<Longrightarrow>
   accInv cI gap targetH infos (accumulate cI gap targetH infos)"
proof (induction infos rule: rev_induct)
  case Nil
  then show ?case by (simp add: accumulate_def accInv_def openCursor_def)
next
  case (snoc x xs)
  then have "accInv cI gap targetH xs (accumulate cI gap targetH xs)" by simp
  from accInv_step[OF this snoc.prems] show ?case by (simp add: accumulate_def)
qed

text \<open>
  Rounding to binary64. The exponent scan finds the binade of a normal number, and in a
  binade \<open>toDouble\<close> rounds to a multiple of the unit in the last place; the last lemma
  gives this for the binades from \<open>1 / 16\<close> to \<open>4096\<close>, where the numbers of the worked
  scenarios lie.
\<close>

lemma expScan_eq:
  assumes "2 powi e \<le> \<bar>x\<bar>" and "\<bar>x\<bar> < 2 powi (e + 1)"
  shows "e \<le> e0 \<Longrightarrow> e0 - int n \<le> e \<Longrightarrow> expScan n e0 x = e"
proof (induction n arbitrary: e0)
  case 0
  then show ?case by simp
next
  case (Suc n)
  show ?case
  proof (cases "2 powi e0 \<le> \<bar>x\<bar>")
    case True
    have "e0 < e + 1"
    proof (rule ccontr)
      assume "\<not> e0 < e + 1"
      then have "e + 1 \<le> e0" by simp
      then have "(2::real) powi (e + 1) \<le> 2 powi e0"
        by (intro power_int_increasing) simp_all
      with True assms(2) show False by linarith
    qed
    with Suc.prems(1) have "e0 = e" by simp
    then show ?thesis using True by simp
  next
    case False
    with assms(1) have "e0 \<noteq> e" by auto
    with Suc.prems(1) have a: "e \<le> e0 - 1" by simp
    have b: "e0 - 1 - int n \<le> e" using Suc.prems(2) by simp
    have "expScan n (e0 - 1) x = e" by (rule Suc.IH[OF a b])
    then show ?thesis using False by simp
  qed
qed

lemma binExp_eq:
  assumes "2 powi e \<le> \<bar>x\<bar>" and "\<bar>x\<bar> < 2 powi (e + 1)"
    and "- 1022 \<le> e" and "e \<le> 1023"
  shows "binExp x = e"
  unfolding binExp_def using assms(3,4) by (intro expScan_eq[OF assms(1,2)]) simp_all

lemma toDouble_range:
  assumes "2 powi e \<le> x" and "x < 2 powi (e + 1)" and "- 1022 \<le> e" and "e \<le> 1023"
  shows "toDouble x = of_int (roundHalfEven (x / 2 powi (e - 52))) * 2 powi (e - 52)"
proof -
  have p0: "(0::real) < 2 powi e" by simp
  then have xpos: "0 < x" using assms(1) by linarith
  then have ax: "\<bar>x\<bar> = x" by simp
  have be: "binExp x = e" by (rule binExp_eq) (simp_all only: ax assms)
  have "(2::real) powi (- 1022) \<le> 2 powi e"
    using assms(3) by (intro power_int_increasing) simp_all
  then have "\<not> \<bar>x\<bar> < 2 powi (- 1022)" using assms(1) ax by linarith
  then show ?thesis by (simp only: toDouble_def be if_False)
qed

lemma toDouble_0 [simp]: "toDouble 0 = 0"
  by (simp add: toDouble_def roundHalfEven_def)

lemma toDouble_scaled:
  assumes "2 powi (52 - int k) \<le> x" and "x < 2 powi (53 - int k)" and "k \<le> 1074"
  shows "toDouble x = of_int (roundHalfEven (x * 2 ^ k)) / 2 ^ k"
proof -
  have a: "2 powi (52 - int k) \<le> x" by (rule assms(1))
  have b: "x < 2 powi ((52 - int k) + 1)" using assms(2) by (simp add: algebra_simps)
  have c: "- 1022 \<le> 52 - int k" using assms(3) by simp
  have d: "52 - int k \<le> 1023" by simp
  have s: "(2::real) powi (52 - int k - 52) = 1 / 2 ^ k"
    by (simp add: power_int_minus_divide)
  show ?thesis
    unfolding toDouble_range[OF a b c d] s by simp
qed

lemma toDouble_eval:
  "1 / 16 \<le> x \<Longrightarrow> x < 1 / 8 \<Longrightarrow>
     toDouble x = of_int (roundHalfEven (x * 72057594037927936)) / 72057594037927936"
  "1 / 8 \<le> x \<Longrightarrow> x < 1 / 4 \<Longrightarrow>
     toDouble x = of_int (roundHalfEven (x * 36028797018963968)) / 36028797018963968"
  "1 / 4 \<le> x \<Longrightarrow> x < 1 / 2 \<Longrightarrow>
     toDouble x = of_int (roundHalfEven (x * 18014398509481984)) / 18014398509481984"
  "1 / 2 \<le> x \<Longrightarrow> x < 1 \<Longrightarrow>
     toDouble x = of_int (roundHalfEven (x * 9007199254740992)) / 9007199254740992"
  "1 \<le> x \<Longrightarrow> x < 2 \<Longrightarrow>
     toDouble x = of_int (roundHalfEven (x * 4503599627370496)) / 4503599627370496"
  "2 \<le> x \<Longrightarrow> x < 4 \<Longrightarrow>
     toDouble x = of_int (roundHalfEven (x * 2251799813685248)) / 2251799813685248"
  "4 \<le> x \<Longrightarrow> x < 8 \<Longrightarrow>
     toDouble x = of_int (roundHalfEven (x * 1125899906842624)) / 1125899906842624"
  "8 \<le> x \<Longrightarrow> x < 16 \<Longrightarrow>
     toDouble x = of_int (roundHalfEven (x * 562949953421312)) / 562949953421312"
  "16 \<le> x \<Longrightarrow> x < 32 \<Longrightarrow>
     toDouble x = of_int (roundHalfEven (x * 281474976710656)) / 281474976710656"
  "32 \<le> x \<Longrightarrow> x < 64 \<Longrightarrow>
     toDouble x = of_int (roundHalfEven (x * 140737488355328)) / 140737488355328"
  "64 \<le> x \<Longrightarrow> x < 128 \<Longrightarrow>
     toDouble x = of_int (roundHalfEven (x * 70368744177664)) / 70368744177664"
  "128 \<le> x \<Longrightarrow> x < 256 \<Longrightarrow>
     toDouble x = of_int (roundHalfEven (x * 35184372088832)) / 35184372088832"
  "256 \<le> x \<Longrightarrow> x < 512 \<Longrightarrow>
     toDouble x = of_int (roundHalfEven (x * 17592186044416)) / 17592186044416"
  "512 \<le> x \<Longrightarrow> x < 1024 \<Longrightarrow>
     toDouble x = of_int (roundHalfEven (x * 8796093022208)) / 8796093022208"
  "1024 \<le> x \<Longrightarrow> x < 2048 \<Longrightarrow>
     toDouble x = of_int (roundHalfEven (x * 4398046511104)) / 4398046511104"
  "2048 \<le> x \<Longrightarrow> x < 4096 \<Longrightarrow>
     toDouble x = of_int (roundHalfEven (x * 2199023255552)) / 2199023255552"
  using toDouble_scaled[of 56 x] toDouble_scaled[of 55 x] toDouble_scaled[of 54 x] toDouble_scaled[of 53 x] toDouble_scaled[of 52 x] toDouble_scaled[of 51 x] toDouble_scaled[of 50 x] toDouble_scaled[of 49 x] toDouble_scaled[of 48 x] toDouble_scaled[of 47 x] toDouble_scaled[of 46 x] toDouble_scaled[of 45 x] toDouble_scaled[of 44 x] toDouble_scaled[of 43 x] toDouble_scaled[of 42 x] toDouble_scaled[of 41 x]
  by (simp_all add: power_int_minus_divide)

text \<open>The roundings met in the worked scenarios.\<close>

lemma double_facts:
  "toDouble (2 / 3) = 6004799503160661 / 9007199254740992"
  "toDouble (3 / 4) = 3 / 4"
  "toDouble (1) = 1"
  "toDouble (6004799503160661 / 4503599627370496) = 6004799503160661 / 4503599627370496"
  "toDouble (4 / 3) = 6004799503160661 / 4503599627370496"
  "toDouble (16 / 9) = 2001599834386887 / 1125899906842624"
  "toDouble (9382499223688533 / 4503599627370496) = 2345624805922133 / 1125899906842624"
  "toDouble (3471524712764757 / 1125899906842624) = 3471524712764757 / 1125899906842624"
  "toDouble (14011198840708209 / 4503599627370496) = 875699927544263 / 281474976710656"
  "toDouble (34027197184577077 / 9007199254740992) = 8506799296144269 / 2251799813685248"
  "toDouble (12509998964918043 / 2251799813685248) = 3127499741229511 / 562949953421312"
  "toDouble (10) = 10"
  "toDouble (20) = 20"
  "toDouble (30) = 30"
  "toDouble (25675082335093623 / 281474976710656) = 3209385291886703 / 35184372088832"
  "toDouble (36888632466641472334863707074287 / 316912650057057350374175801344) = 8190921822280089 / 70368744177664"
  "toDouble (8558360778364541 / 70368744177664) = 8558360778364541 / 70368744177664"
  "toDouble (140737488355328000 / 1157174904254919) = 8558360778364541 / 70368744177664"
  "toDouble (135) = 135"
  "toDouble (900719925474099200 / 6004799503160661) = 150"
  "toDouble (51391240549793083750635948521601 / 316912650057057350374175801344) = 5705573852243027 / 35184372088832"
  "toDouble (546061454818672640 / 3127499741229511) = 6143191366710067 / 35184372088832"
  "toDouble (450359962737049575 / 2251799813685248) = 200"
  "toDouble (200) = 200"
  "toDouble (36888632466641472334863707074287 / 158456325028528675187087900672) = 8190921822280089 / 35184372088832"
  "toDouble (270215977642229745 / 1125899906842624) = 240"
  "toDouble (240) = 240"
  "toDouble (12296210822213824111621235691429 / 39614081257132168796771975168) = 2730307274093363 / 8796093022208"
  "toDouble (6597069766655999 / 17592186044416) = 6597069766655999 / 17592186044416"
  "toDouble (105553116266495985 / 281474976710656) = 6597069766655999 / 17592186044416"
  "toDouble (375) = 375"
  "toDouble (156218612074414065 / 281474976710656) = 555"
  "toDouble (555) = 555"
  "toDouble (39406496739491835 / 70368744177664) = 4925812092436479 / 8796093022208"
  "toDouble (5013773022658559 / 8796093022208) = 5013773022658559 / 8796093022208"
  "toDouble (382805968326492105 / 562949953421312) = 5981343255101439 / 8796093022208"
  "toDouble (6157265115545599 / 8796093022208) = 6157265115545599 / 8796093022208"
  "toDouble (970) = 970"
  "toDouble (140737488355327995 / 140737488355328) = 1000"
  "toDouble (1000) = 1000"
  "toDouble (1030) = 1030"
  by (simp_all add: toDouble_eval roundHalfEven_def)

lemma exactArith_sel:
  "fadd exactArith = (\<lambda>a b. a + b)" "fsub exactArith = (\<lambda>a b. a - b)"
  "fmul exactArith = (\<lambda>a b. a * b)" "fdiv exactArith = (\<lambda>a b. a / b)"
  by (simp_all add: exactArith_def)

text \<open>
  Adding 0, subtracting 0 and multiplying by 0 are exact over the reals, and in binary64
  on the values that binary64 has (those that \<open>toDouble\<close> leaves as they are).
\<close>

lemma zero_laws_exact:
  "fadd exactArith 0 a = a \<and> fmul exactArith g 0 = 0 \<and> fadd exactArith w 0 = w \<and>
   fsub exactArith c 0 = c"
  by (simp add: exactArith_sel)

lemma zero_laws_double:
  "toDouble a = a \<Longrightarrow> toDouble w = w \<Longrightarrow> toDouble c = c \<Longrightarrow>
   fadd doubleArith 0 a = a \<and> fmul doubleArith g 0 = 0 \<and> fadd doubleArith w 0 = w \<and>
   fsub doubleArith c 0 = c"
  by (simp add: doubleArith_def)

text \<open>
  With exact operations the first pass in a given arithmetic is the first pass over the
  reals.
\<close>

lemma gatherInfosWith_exact: "gatherInfosWith exactArith sizes = gatherInfos sizes"
  unfolding gatherInfosWith_def gatherInfos_def imgInfoWith_def imgInfo_def exactArith_sel
  by (rule refl)

lemma rowStepWith_exact:
  "rowStepWith exactArith cI gap targetH st info = rowStep cI gap targetH st info"
  unfolding rowStepWith_def rowStep_def expectedWWith_def expectedW_def fullRowWith_def
    fullRow_def exactArith_sel
  by (rule refl)

lemma firstPassWith_exact:
  "firstPassWith exactArith align cI gap targetH infos = firstPass align cI gap targetH infos"
proof -
  have r: "rowStepWith exactArith cI gap targetH = rowStep cI gap targetH"
    by (intro ext) (rule rowStepWith_exact)
  have a: "accumulateWith exactArith cI gap targetH infos = accumulate cI gap targetH infos"
    by (simp add: accumulateWith_def accumulate_def r)
  have l: "lastRowWith exactArith align cI gap targetH cursor = lastRow align cI gap targetH cursor"
    for cursor
    unfolding lastRowWith_def lastRow_def fullRowWith_def fullRow_def exactArith_sel
    by (rule refl)
  show ?thesis by (simp add: firstPassWith_def firstPass_def a l)
qed

lemma layoutRowsWith_exact:
  "layoutRowsWith exactArith align cI gap targetH infos = layoutRows align cI gap targetH infos"
  by (simp add: layoutRowsWith_def layoutRows_def firstPassWith_exact)

lemma runningSum_exact: "runningSum exactArith its = sum_list (map aspect its)"
proof -
  have "foldl (\<lambda>s it. s + aspect it) a its = a + sum_list (map aspect its)" for a
    by (induction its arbitrary: a) simp_all
  then show ?thesis by (simp add: runningSum_def exactArith_sel)
qed

lemma containerInnerWith_bounds:
  "1 \<le> containerInnerWith ar rectWidth padLeft padRight \<and>
   containerInnerWith ar rectWidth padLeft padRight \<in> \<int>"
  by (simp add: containerInnerWith_def mathFloor_def max_def)

text \<open>The accumulation loop in a given arithmetic keeps its invariant, whatever the operations.\<close>

lemma runningSum_snoc:
  "runningSum ar (its @ [info]) = fadd ar (runningSum ar its) (aspect info)"
  by (simp add: runningSum_def)

lemma runningSum_Nil: "runningSum ar [] = 0"
  by (simp add: runningSum_def)

lemma closedRowWith_fullRowWith:
  assumes "openCursorWith ar cI gap targetH cursor"
    and "cI \<le> expectedWWith ar gap targetH (runningSum ar (cursor @ [info])) (length (cursor @ [info]))"
  shows "closedRowWith ar cI gap targetH
           (fullRowWith ar cI gap (cursor @ [info]) (runningSum ar (cursor @ [info])))"
proof -
  have pre: "\<forall>k. 0 < k \<and> k < length (cursor @ [info]) \<longrightarrow>
          expectedWWith ar gap targetH (runningSum ar (take k (cursor @ [info]))) k < cI"
    using assms(1) by (simp add: openCursorWith_def)
  show ?thesis
    unfolding closedRowWith_def fullRowWith_def Let_def
    using pre assms(2) by simp
qed

lemma openCursorWith_snoc:
  assumes "openCursorWith ar cI gap targetH cursor"
    and "\<not> cI \<le> expectedWWith ar gap targetH (runningSum ar (cursor @ [info])) (length (cursor @ [info]))"
  shows "openCursorWith ar cI gap targetH (cursor @ [info])"
  unfolding openCursorWith_def
proof (intro allI impI)
  fix k assume k: "0 < k \<and> k \<le> length (cursor @ [info])"
  show "expectedWWith ar gap targetH (runningSum ar (take k (cursor @ [info]))) k < cI"
  proof (cases "k \<le> length cursor")
    case True
    then show ?thesis using assms(1) k by (simp add: openCursorWith_def)
  next
    case False
    then have "k = length (cursor @ [info])" using k by simp
    then show ?thesis using assms(2) by simp
  qed
qed

lemma accInvWith_step:
  assumes "accInvWith ar cI gap targetH pre st"
  shows "accInvWith ar cI gap targetH (pre @ [info]) (rowStepWith ar cI gap targetH st info)"
proof -
  obtain cursor aspectSum rowsTemp where st: "st = (cursor, aspectSum, rowsTemp)"
    by (cases st)
  from assms st have part: "concat (map rtItems rowsTemp) @ cursor = pre"
    and s: "aspectSum = runningSum ar cursor"
    and rows: "\<forall>row \<in> set rowsTemp. closedRowWith ar cI gap targetH row"
    and cur: "openCursorWith ar cI gap targetH cursor"
    by (simp_all add: accInvWith_def)
  have s': "fadd ar aspectSum (aspect info) = runningSum ar (cursor @ [info])"
    using s by (simp add: runningSum_snoc)
  show ?thesis
  proof (cases "cI \<le> expectedWWith ar gap targetH (runningSum ar (cursor @ [info])) (length (cursor @ [info]))")
    case True
    have step: "rowStepWith ar cI gap targetH st info =
          ([], 0, rowsTemp @ [fullRowWith ar cI gap (cursor @ [info]) (runningSum ar (cursor @ [info]))])"
      using True by (simp add: rowStepWith_def st Let_def s')
    have cr: "closedRowWith ar cI gap targetH
                (fullRowWith ar cI gap (cursor @ [info]) (runningSum ar (cursor @ [info])))"
      by (rule closedRowWith_fullRowWith[OF cur True])
    have it: "rtItems (fullRowWith ar cI gap (cursor @ [info]) (runningSum ar (cursor @ [info])))
                = cursor @ [info]"
      by (simp add: fullRowWith_def Let_def)
    show ?thesis
      unfolding step accInvWith_def
      using part rows cr it by (simp add: openCursorWith_def runningSum_Nil)
  next
    case False
    have step: "rowStepWith ar cI gap targetH st info =
                  (cursor @ [info], runningSum ar (cursor @ [info]), rowsTemp)"
      using False by (simp add: rowStepWith_def st Let_def s')
    show ?thesis
      unfolding step accInvWith_def
      using part rows openCursorWith_snoc[OF cur False] by simp
  qed
qed

lemma accInvWith_accumulateWith:
  "accInvWith ar cI gap targetH infos (accumulateWith ar cI gap targetH infos)"
proof (induction infos rule: rev_induct)
  case Nil
  then show ?case
    by (simp add: accumulateWith_def accInvWith_def openCursorWith_def runningSum_Nil)
next
  case (snoc x xs)
  from accInvWith_step[OF snoc.IH] show ?case by (simp add: accumulateWith_def)
qed

lemma firstPassWith_single:
  assumes "fadd ar 0 (aspect info) = aspect info" and "fmul ar gap 0 = 0"
    and "fadd ar (fmul ar (aspect info) targetH) 0 = fmul ar (aspect info) targetH"
    and "fsub ar cI 0 = cI"
    and "cI \<le> fmul ar (aspect info) targetH"
  shows "firstPassWith ar align cI gap targetH [info] =
           [\<lparr>rtItems = [info],
             floatWidths = [fmul ar (aspect info) (fdiv ar cI (aspect info))],
             rowHFloat = fdiv ar cI (aspect info), rtStretch = True\<rparr>]"
  using assms
  by (simp add: firstPassWith_def accumulateWith_def rowStepWith_def expectedWWith_def
        fullRowWith_def lastRowWith_def Let_def)

lemma gather_scenarioBoundary:
  "gatherInfosWith doubleArith scenarioBoundary =
     [\<lparr>el = 0, aspect = 3 / 4, naturalW = 3, naturalH = 4\<rparr>,
      \<lparr>el = 1, aspect = 6004799503160661 / 4503599627370496, naturalW = 4, naturalH = 3\<rparr>,
      \<lparr>el = 2, aspect = 1, naturalW = 1, naturalH = 1\<rparr>]"
  by (simp add: scenarioBoundary_def gatherInfosWith_def imgInfoWith_def upt_rec doubleArith_def
        double_facts)

lemma accumulate_scenarioBoundary:
  "accumulateWith doubleArith 375 0 180 (gatherInfosWith doubleArith scenarioBoundary) =
     ([], 0,
      [\<lparr>rtItems = [\<lparr>el = 0, aspect = 3 / 4, naturalW = 3, naturalH = 4\<rparr>,
      \<lparr>el = 1, aspect = 6004799503160661 / 4503599627370496, naturalW = 4, naturalH = 3\<rparr>,
      \<lparr>el = 2, aspect = 1, naturalW = 1, naturalH = 1\<rparr>],
        floatWidths = [3209385291886703 / 35184372088832, 5705573852243027 / 35184372088832,
                       8558360778364541 / 70368744177664],
        rowHFloat = 8558360778364541 / 70368744177664, rtStretch = True\<rparr>])"
  unfolding gather_scenarioBoundary
  by (simp add: accumulateWith_def rowStepWith_def expectedWWith_def fullRowWith_def
        doubleArith_def double_facts)



text \<open>
  C5. In any arithmetic, that of the program (\<open>doubleArith\<close>) and the exact one among
  them, the accumulation loop splits the items, in order, into closed rows and the open
  cursor. A row closes exactly when the projected width, computed as the program computes it
  (\<^verbatim>\<open>aspectSum * targetH + gap * (cursor.length - 1)\<close>, with \<^verbatim>\<open>aspectSum\<close> the
  running sum of the aspect ratios), first reaches the inner width of the container: the
  closed row reaches it, none of its shorter prefixes does, and no prefix of the open cursor
  does. The height of a closed row is the computed
  \<^verbatim>\<open>(containerInner - gap * (count - 1)) / aspectSum\<close>, and its float widths are the
  aspect ratios times that height. A single item whose width at the target height reaches
  the container alone is a full row of one, of height \<open>containerInner / aspect\<close>, when
  adding 0, subtracting 0 and multiplying by 0 are exact on the values at hand, as they are
  over the reals and in binary64.
\<close>

theorem rows_close_at_first_overflow:
  "(case accumulateWith ar containerInner gap targetH infos of
      (cursor, aspectSum, rowsTemp) \<Rightarrow>
        concat (map rtItems rowsTemp) @ cursor = infos \<and>
        aspectSum = runningSum ar cursor \<and>
        (\<forall>row \<in> set rowsTemp.
           rtItems row \<noteq> [] \<and> rtStretch row \<and>
           containerInner \<le> fadd ar (fmul ar (runningSum ar (rtItems row)) targetH)
                                 (fmul ar gap (real (length (rtItems row)) - 1)) \<and>
           (\<forall>k. 0 < k \<and> k < length (rtItems row) \<longrightarrow>
                fadd ar (fmul ar (runningSum ar (take k (rtItems row))) targetH)
                        (fmul ar gap (real k - 1)) < containerInner) \<and>
           rowHFloat row =
             fdiv ar (fsub ar containerInner (fmul ar gap (real (length (rtItems row)) - 1)))
                     (runningSum ar (rtItems row)) \<and>
           floatWidths row = map (\<lambda>it. fmul ar (aspect it) (rowHFloat row)) (rtItems row)) \<and>
        (\<forall>k. 0 < k \<and> k \<le> length cursor \<longrightarrow>
             fadd ar (fmul ar (runningSum ar (take k cursor)) targetH)
                     (fmul ar gap (real k - 1)) < containerInner)) \<and>
   (fadd ar 0 (aspect info) = aspect info \<and> fmul ar gap 0 = 0 \<and>
    fadd ar (fmul ar (aspect info) targetH) 0 = fmul ar (aspect info) targetH \<and>
    fsub ar containerInner 0 = containerInner \<and>
    containerInner \<le> fmul ar (aspect info) targetH \<longrightarrow>
      firstPassWith ar align containerInner gap targetH [info] =
        [\<lparr>rtItems = [info],
          floatWidths = [fmul ar (aspect info) (fdiv ar containerInner (aspect info))],
          rowHFloat = fdiv ar containerInner (aspect info), rtStretch = True\<rparr>])"
proof -
  obtain cursor aspectSum rowsTemp
    where acc: "accumulateWith ar containerInner gap targetH infos = (cursor, aspectSum, rowsTemp)"
    by (cases "accumulateWith ar containerInner gap targetH infos")
  have "accInvWith ar containerInner gap targetH infos (cursor, aspectSum, rowsTemp)"
    using accInvWith_accumulateWith[of ar containerInner gap targetH infos]
    by (simp only: acc)
  then have inv: "concat (map rtItems rowsTemp) @ cursor = infos"
    "aspectSum = runningSum ar cursor"
    "\<forall>row \<in> set rowsTemp. closedRowWith ar containerInner gap targetH row"
    "openCursorWith ar containerInner gap targetH cursor"
    by (simp_all add: accInvWith_def)
  have one: "firstPassWith ar align containerInner gap targetH [info] =
        [\<lparr>rtItems = [info],
          floatWidths = [fmul ar (aspect info) (fdiv ar containerInner (aspect info))],
          rowHFloat = fdiv ar containerInner (aspect info), rtStretch = True\<rparr>]"
    if "fadd ar 0 (aspect info) = aspect info" "fmul ar gap 0 = 0"
      "fadd ar (fmul ar (aspect info) targetH) 0 = fmul ar (aspect info) targetH"
      "fsub ar containerInner 0 = containerInner"
      "containerInner \<le> fmul ar (aspect info) targetH"
    using that by (rule firstPassWith_single)
  from inv one show ?thesis
    unfolding acc
    by (auto simp: closedRowWith_def openCursorWith_def expectedWWith_def)
qed

lemma runningSum_boundary2:
  "runningSum doubleArith
     [\<lparr>el = e0, aspect = 3 / 4, naturalW = w0, naturalH = h0\<rparr>,
      \<lparr>el = e1, aspect = 6004799503160661 / 4503599627370496, naturalW = w1, naturalH = h1\<rparr>]
   = 2345624805922133 / 1125899906842624"
  by (simp add: runningSum_def doubleArith_def double_facts)

lemma runningSum_boundary3:
  "runningSum doubleArith
     [\<lparr>el = e0, aspect = 3 / 4, naturalW = w0, naturalH = h0\<rparr>,
      \<lparr>el = e1, aspect = 6004799503160661 / 4503599627370496, naturalW = w1, naturalH = h1\<rparr>,
      \<lparr>el = e2, aspect = 1, naturalW = w2, naturalH = h2\<rparr>]
   = 3471524712764757 / 1125899906842624"
  by (simp add: runningSum_def doubleArith_def double_facts)

text \<open>
  In binary64, with a container of inner width 375, no gap and a target height of 180, the
  items of ratios 3:4 and 4:3 have the projected width 374.99999999999994, below 375: the
  row stays open and closes with the third item, at 555, with the height
  \<open>375 / aspectSum\<close> of about 121.6. An item of ratio 4:3 alone, 240 wide at the target
  height in a container of 200, is a row of height 150.
\<close>

theorem rows_close_at_first_overflow_witness:
  "hd (snd (snd (accumulateWith doubleArith 375 0 180 (gatherInfosWith doubleArith scenarioBoundary))))
     \<in> set (snd (snd (accumulateWith doubleArith 375 0 180
                        (gatherInfosWith doubleArith scenarioBoundary)))) \<and>
   map el (rtItems (hd (snd (snd (accumulateWith doubleArith 375 0 180
                        (gatherInfosWith doubleArith scenarioBoundary)))))) = [0, 1, 2] \<and>
   fadd doubleArith (fmul doubleArith (2345624805922133 / 1125899906842624) 180)
        (fmul doubleArith 0 (real 2 - 1)) = 6597069766655999 / 17592186044416 \<and>
   (6597069766655999 / 17592186044416 :: real) < 375 \<and>
   fadd doubleArith (fmul doubleArith (3471524712764757 / 1125899906842624) 180)
        (fmul doubleArith 0 (real 3 - 1)) = 555 \<and>
   rowHFloat (hd (snd (snd (accumulateWith doubleArith 375 0 180
                        (gatherInfosWith doubleArith scenarioBoundary)))))
     = fdiv doubleArith (fsub doubleArith 375 (fmul doubleArith 0 (real 3 - 1)))
         (3471524712764757 / 1125899906842624) \<and>
   fdiv doubleArith (fsub doubleArith 375 (fmul doubleArith 0 (real 3 - 1)))
         (3471524712764757 / 1125899906842624) = 8558360778364541 / 70368744177664 \<and>
   aspect (imgInfoWith doubleArith 0 (4, 3)) = 6004799503160661 / 4503599627370496 \<and>
   fmul doubleArith (aspect (imgInfoWith doubleArith 0 (4, 3))) 180 = 240 \<and>
   map rowHFloat (firstPassWith doubleArith AlignLeft 200 10 180 [imgInfoWith doubleArith 0 (4, 3)])
     = [150]"
proof -
  let ?acc = "accumulateWith doubleArith 375 0 180 (gatherInfosWith doubleArith scenarioBoundary)"
  let ?row = "hd (snd (snd ?acc))"
  let ?i43 = "imgInfoWith doubleArith 0 (4, 3)"
  note inst = rows_close_at_first_overflow[where ar = doubleArith and containerInner = 375
      and gap = 0 and targetH = 180 and infos = "gatherInfosWith doubleArith scenarioBoundary"
      and info = ?i43 and align = AlignLeft]
  have mem: "?row \<in> set (snd (snd ?acc))" by (simp add: accumulate_scenarioBoundary)
  have it: "rtItems ?row = [\<lparr>el = 0, aspect = 3 / 4, naturalW = 3, naturalH = 4\<rparr>,
      \<lparr>el = 1, aspect = 6004799503160661 / 4503599627370496, naturalW = 4, naturalH = 3\<rparr>,
      \<lparr>el = 2, aspect = 1, naturalW = 1, naturalH = 1\<rparr>]"
    by (simp add: accumulate_scenarioBoundary)
  from inst mem have row:
    "(\<forall>k. 0 < k \<and> k < length (rtItems ?row) \<longrightarrow>
        fadd doubleArith (fmul doubleArith (runningSum doubleArith (take k (rtItems ?row))) 180)
             (fmul doubleArith 0 (real k - 1)) < 375)"
    "rowHFloat ?row =
       fdiv doubleArith (fsub doubleArith 375 (fmul doubleArith 0 (real (length (rtItems ?row)) - 1)))
            (runningSum doubleArith (rtItems ?row))"
    by (auto split: prod.splits)
  from row(1) have "0 < (2::nat) \<and> 2 < length (rtItems ?row) \<longrightarrow>
      fadd doubleArith (fmul doubleArith (runningSum doubleArith (take 2 (rtItems ?row))) 180)
             (fmul doubleArith 0 (real 2 - 1)) < 375"
    by blast
  then have k2: "fadd doubleArith (fmul doubleArith (2345624805922133 / 1125899906842624) 180)
             (fmul doubleArith 0 (real 2 - 1)) < 375"
    by (simp add: it runningSum_boundary2)
  have v2: "fadd doubleArith (fmul doubleArith (2345624805922133 / 1125899906842624) 180)
        (fmul doubleArith 0 (real 2 - 1)) = 6597069766655999 / 17592186044416"
    by (simp add: doubleArith_def double_facts)
  have v2': "(6597069766655999 / 17592186044416 :: real) < 375"
    using k2 unfolding v2 .
  have v3: "fadd doubleArith (fmul doubleArith (3471524712764757 / 1125899906842624) 180)
        (fmul doubleArith 0 (real 3 - 1)) = 555"
    by (simp add: doubleArith_def double_facts)
  have h: "rowHFloat ?row = fdiv doubleArith (fsub doubleArith 375 (fmul doubleArith 0 (real 3 - 1)))
         (3471524712764757 / 1125899906842624)"
    using row(2) by (simp add: it runningSum_boundary3)
  have hv: "fdiv doubleArith (fsub doubleArith 375 (fmul doubleArith 0 (real 3 - 1)))
         (3471524712764757 / 1125899906842624) = 8558360778364541 / 70368744177664"
    by (simp add: doubleArith_def double_facts)
  have a: "aspect ?i43 = 6004799503160661 / 4503599627370496"
    by (simp add: imgInfoWith_def doubleArith_def double_facts)
  have z: "fadd doubleArith 0 (aspect ?i43) = aspect ?i43" "fmul doubleArith 10 0 = 0"
    "fadd doubleArith (fmul doubleArith (aspect ?i43) 180) 0 = fmul doubleArith (aspect ?i43) 180"
    "fsub doubleArith 200 0 = 200"
    "fmul doubleArith (aspect ?i43) 180 = 240"
    unfolding a by (simp_all add: doubleArith_def double_facts)
  have big: "(200 :: real) \<le> fmul doubleArith (aspect ?i43) 180"
    unfolding z(5) by simp
  from rows_close_at_first_overflow[where ar = doubleArith and containerInner = 200
      and gap = 10 and targetH = 180 and info = ?i43 and align = AlignLeft] z(1-4) big
  have single: "firstPassWith doubleArith AlignLeft 200 10 180 [?i43] =
        [\<lparr>rtItems = [?i43],
          floatWidths = [fmul doubleArith (aspect ?i43) (fdiv doubleArith 200 (aspect ?i43))],
          rowHFloat = fdiv doubleArith 200 (aspect ?i43), rtStretch = True\<rparr>]"
    by blast
  have s: "map rowHFloat (firstPassWith doubleArith AlignLeft 200 10 180 [?i43]) = [150]"
    unfolding single a by (simp add: doubleArith_def double_facts)
  have els: "map el (rtItems ?row) = [0, 1, 2]" by (simp add: it)
  from mem els v2 v2' v3 h hv a z(5) s show ?thesis by simp
qed

text \<open>
  Over the reals the first two items of that scenario are exactly 375 wide and close a row of
  two: the rows of the program are those of its own arithmetic.
\<close>

lemma boundary_rows_exact_and_double:
  "map (\<lambda>r. map el (rtItems r))
     (firstPassWith exactArith AlignLeft 375 0 180 (gatherInfosWith exactArith scenarioBoundary))
     = [[0, 1], [2]] \<and>
   map (\<lambda>r. map el (rtItems r))
     (firstPassWith doubleArith AlignLeft 375 0 180 (gatherInfosWith doubleArith scenarioBoundary))
     = [[0, 1, 2]]"
proof -
  have "map (\<lambda>r. map el (rtItems r))
     (firstPass AlignLeft 375 0 180 (gatherInfos scenarioBoundary)) = [[0, 1], [2]]"
    by (simp add: scenarioBoundary_def gatherInfos_def imgInfo_def upt_rec firstPass_def
        accumulate_def rowStep_def expectedW_def fullRow_def lastRow_def)
  moreover have "map (\<lambda>r. map el (rtItems r))
     (firstPassWith doubleArith AlignLeft 375 0 180 (gatherInfosWith doubleArith scenarioBoundary))
     = [[0, 1, 2]]"
    by (simp add: firstPassWith_def accumulate_scenarioBoundary lastRowWith_def)
  ultimately show ?thesis by (simp add: firstPassWith_exact gatherInfosWith_exact)
qed

lemma firstPass_nonempty:
  assumes "sizes \<noteq> []"
  shows "firstPass align cI gap targetH (gatherInfos sizes) \<noteq> []"
proof -
  obtain cursor aspectSum rowsTemp
    where acc: "accumulate cI gap targetH (gatherInfos sizes) = (cursor, aspectSum, rowsTemp)"
    by (cases "accumulate cI gap targetH (gatherInfos sizes)")
  have "accInv cI gap targetH (gatherInfos sizes) (cursor, aspectSum, rowsTemp)"
    using accInv_accumulate[OF gatherInfos_pos, of cI gap targetH sizes] by (simp only: acc)
  then have part: "concat (map rtItems rowsTemp) @ cursor = gatherInfos sizes"
    by (simp add: accInv_def)
  have ne: "gatherInfos sizes \<noteq> []" using assms by (simp add: gatherInfos_def)
  show ?thesis
  proof (cases "cursor = []")
    case True
    with part ne have "rowsTemp \<noteq> []" by auto
    then show ?thesis by (simp add: firstPass_def acc)
  next
    case False
    then show ?thesis by (simp add: firstPass_def acc lastRow_def)
  qed
qed

lemma accumulate_rows_stretch:
  "\<forall>row \<in> set (snd (snd (accumulate cI gap targetH (gatherInfos sizes)))). rtStretch row"
proof -
  obtain cursor aspectSum rowsTemp
    where acc: "accumulate cI gap targetH (gatherInfos sizes) = (cursor, aspectSum, rowsTemp)"
    by (cases "accumulate cI gap targetH (gatherInfos sizes)")
  have "accInv cI gap targetH (gatherInfos sizes) (cursor, aspectSum, rowsTemp)"
    using accInv_accumulate[OF gatherInfos_pos, of cI gap targetH sizes] by (simp only: acc)
  then show ?thesis by (simp add: accInv_def acc closedRow_def)
qed

lemma firstPass_justify_stretch:
  "\<forall>row \<in> set (firstPass AlignJustify cI gap targetH (gatherInfos sizes)). rtStretch row"
proof -
  obtain cursor aspectSum rowsTemp
    where acc: "accumulate cI gap targetH (gatherInfos sizes) = (cursor, aspectSum, rowsTemp)"
    by (cases "accumulate cI gap targetH (gatherInfos sizes)")
  have "\<forall>row \<in> set rowsTemp. rtStretch row"
    using accumulate_rows_stretch[of cI gap targetH sizes] by (simp add: acc)
  moreover have "\<forall>row \<in> set (lastRow AlignJustify cI gap targetH cursor). rtStretch row"
    by (simp add: lastRow_def fullRow_def Let_def)
  ultimately show ?thesis by (auto simp: firstPass_def acc)
qed

lemma stretch_positionRow [simp]: "stretch (positionRow cI gap row) = rtStretch row"
  by (simp add: positionRow_def)

text \<open>
  C10. Under the Justify policy the defensive check of the last row is skipped: it leaves
  the rows as the second pass made them. Every row of a Justify pass is stretched, and so,
  when there is an item, the last row exists and is still marked stretched after the full
  pass.
\<close>

theorem justify_last_row_stays_stretched:
  "defensiveCheck AlignJustify containerInner gap positionedRows = positionedRows \<and>
   layoutRows AlignJustify containerInner gap targetH (gatherInfos sizes)
     = secondPass containerInner gap
         (firstPass AlignJustify containerInner gap targetH (gatherInfos sizes)) \<and>
   (\<forall>r \<in> set (layoutRows AlignJustify containerInner gap targetH (gatherInfos sizes)).
      stretch r) \<and>
   (sizes \<noteq> [] \<longrightarrow>
      layoutRows AlignJustify containerInner gap targetH (gatherInfos sizes) \<noteq> [] \<and>
      stretch (last (layoutRows AlignJustify containerInner gap targetH (gatherInfos sizes))))"
proof -
  have dc: "defensiveCheck AlignJustify containerInner gap rs = rs" for rs
    by (simp add: defensiveCheck_def)
  have lr: "layoutRows AlignJustify containerInner gap targetH (gatherInfos sizes)
     = secondPass containerInner gap
         (firstPass AlignJustify containerInner gap targetH (gatherInfos sizes))"
    by (simp add: layoutRows_def dc)
  have all: "\<forall>r \<in> set (layoutRows AlignJustify containerInner gap targetH (gatherInfos sizes)).
      stretch r"
    unfolding lr secondPass_def
    using firstPass_justify_stretch[of containerInner gap targetH sizes] by simp
  have "layoutRows AlignJustify containerInner gap targetH (gatherInfos sizes) \<noteq> [] \<and>
      stretch (last (layoutRows AlignJustify containerInner gap targetH (gatherInfos sizes)))"
    if "sizes \<noteq> []"
  proof -
    have ne: "layoutRows AlignJustify containerInner gap targetH (gatherInfos sizes) \<noteq> []"
      unfolding lr secondPass_def using firstPass_nonempty[OF that] by simp
    then have "last (layoutRows AlignJustify containerInner gap targetH (gatherInfos sizes))
        \<in> set (layoutRows AlignJustify containerInner gap targetH (gatherInfos sizes))"
      by (rule last_in_set)
    with all ne show ?thesis by blast
  qed
  with dc lr all show ?thesis by blast
qed

lemma gather_scenarioB:
  "gatherInfos scenarioB =
     [\<lparr>el = 0, aspect = 1, naturalW = 1, naturalH = 1\<rparr>,
      \<lparr>el = 1, aspect = 13 / 10, naturalW = 13, naturalH = 10\<rparr>]"
  by (simp add: scenarioB_def gatherInfos_def imgInfo_def upt_rec)

theorem justify_last_row_stays_stretched_witness:
  "scenarioB \<noteq> [] \<and>
   last (layoutRows AlignJustify 1000 0 400 (gatherInfos scenarioB))
     \<in> set (layoutRows AlignJustify 1000 0 400 (gatherInfos scenarioB)) \<and>
   stretch (last (layoutRows AlignJustify 1000 0 400 (gatherInfos scenarioB))) \<and>
   map rtStretch (firstPass AlignLeft 1000 0 400 (gatherInfos scenarioB)) = [False]"
proof -
  have ne: "scenarioB \<noteq> []" by (simp add: scenarioB_def)
  from justify_last_row_stays_stretched[where sizes = scenarioB and containerInner = 1000
      and gap = 0 and targetH = 400] ne
  have "layoutRows AlignJustify 1000 0 400 (gatherInfos scenarioB) \<noteq> []"
    and st: "stretch (last (layoutRows AlignJustify 1000 0 400 (gatherInfos scenarioB)))"
    by blast+
  then have "last (layoutRows AlignJustify 1000 0 400 (gatherInfos scenarioB))
     \<in> set (layoutRows AlignJustify 1000 0 400 (gatherInfos scenarioB))"
    by simp
  moreover have "map rtStretch (firstPass AlignLeft 1000 0 400 (gatherInfos scenarioB)) = [False]"
    by (simp add: gather_scenarioB firstPass_def accumulate_def rowStep_def expectedW_def
          lastRow_def)
  ultimately show ?thesis using ne st by simp
qed






text \<open>
  The rounding of a row that is not stretched keeps every width at 1 or more
  (\<^verbatim>\<open>Math.max(1, Math.round(w))\<close>).
\<close>

lemma unstretched_widths_at_least_one:
  "\<not> rtStretch row \<Longrightarrow> \<forall>w \<in> set (widths (positionRow cI gap row)). 1 \<le> w"
  by (simp add: positionRow_def)

lemma firstPass_scenarioThin:
  "firstPass AlignLeft 1000 6 180 (gatherInfos scenarioThin) =
     [\<lparr>rtItems = [\<lparr>el = 0, aspect = 1 / 200, naturalW = 5, naturalH = 1000\<rparr>,
                  \<lparr>el = 1, aspect = 10, naturalW = 1000, naturalH = 100\<rparr>],
       floatWidths = [994 / 2001, 1988000 / 2001], rowHFloat = 198800 / 2001,
       rtStretch = True\<rparr>]"
  by (simp add: scenarioThin_def gatherInfos_def imgInfo_def upt_rec firstPass_def
        accumulate_def rowStep_def expectedW_def fullRow_def lastRow_def)

lemma stretchWidths_scenarioThin:
  "length its = 2 \<Longrightarrow>
   stretchWidths 1000 6
     \<lparr>rtItems = its, floatWidths = [994 / 2001, 1988000 / 2001], rowHFloat = h,
       rtStretch = b\<rparr> = [0, 994]"
  by (simp add: stretchWidths_def totalGapOf_def mathFloor_def sumOf_def shrinkFloors_def
        sortFractions_def fixLast_def upt_rec addLoop_step addLoop_done)

text \<open>
  C4 says that every width of every row is at least 1. The distribution step of a stretched
  row has no such bound on the floors: with a container of inner width 1000, a gap of 6 and a
  target height of 180, the thin image and the wide one close one stretched row, the float
  widths are about 0.497 and 993.503, the floors 0 and 993, and the one remaining pixel goes
  to the wide image. The thin image gets width 0.
\<close>

theorem stretched_row_zero_width:
  "map widths (layoutRows AlignLeft 1000 6 180 (gatherInfos scenarioThin)) = [[0, 994]] \<and>
   map stretch (layoutRows AlignLeft 1000 6 180 (gatherInfos scenarioThin)) = [True] \<and>
   fst (positionRows AlignLeft 1000 6
          (layoutRows AlignLeft 1000 6 180 (gatherInfos scenarioThin)) 0)
     = [(0, Absolute 0 0 0 99), (1, Absolute 6 0 994 99)]"
  by (simp add: layoutRows_def firstPass_scenarioThin secondPass_def positionRow_def
        stretchWidths_scenarioThin defensiveCheck_def rowInnerWidthOf_def sumOf_def
        totalGapOf_def mathRound_def startX_def)

lemma writeStyles_Cons:
  "writeStyles st ((a, r) # rects) = writeStyles (st(a := r)) rects"
  by (simp add: writeStyles_def)

lemma writeStyles_untouched:
  "e \<notin> fst ` set rects \<Longrightarrow> writeStyles st rects e = st e"
proof (induction rects arbitrary: st)
  case Nil
  then show ?case by (simp add: writeStyles_def)
next
  case (Cons p rects)
  obtain a r where p: "p = (a, r)" by (cases p)
  from Cons.prems p have ne: "e \<noteq> a" and nin: "e \<notin> fst ` set rects" by auto
  have "writeStyles (st(a := r)) rects e = (st(a := r)) e" by (rule Cons.IH[OF nin])
  then show ?case using ne by (simp add: p writeStyles_Cons)
qed

lemma writeStyles_written:
  "e \<in> fst ` set rects \<Longrightarrow> writeStyles st rects e = writeStyles st' rects e"
proof (induction rects arbitrary: st st')
  case Nil
  then show ?case by simp
next
  case (Cons p rects)
  obtain a r where p: "p = (a, r)" by (cases p)
  show ?case
  proof (cases "e \<in> fst ` set rects")
    case True
    have "writeStyles (st(a := r)) rects e = writeStyles (st'(a := r)) rects e"
      by (rule Cons.IH[OF True])
    then show ?thesis by (simp add: p writeStyles_Cons)
  next
    case False
    with Cons.prems p have ea: "e = a" by auto
    have "writeStyles (st(a := r)) rects e = (st(a := r)) e"
      and "writeStyles (st'(a := r)) rects e = (st'(a := r)) e"
      by (rule writeStyles_untouched[OF False])+
    then show ?thesis using ea by (simp add: p writeStyles_Cons)
  qed
qed


text \<open>Every row of a layout pass has an item, and one width per item.\<close>

lemma positionRow_lengths:
  "rowOk row \<Longrightarrow>
   items (positionRow cI gap row) \<noteq> [] \<and>
   length (widths (positionRow cI gap row)) = length (items (positionRow cI gap row))"
  by (simp add: positionRow_def rowOk_def length_stretchWidths)

lemma defensiveCheck_lengths:
  assumes "\<forall>r \<in> set rows. items r \<noteq> [] \<and> length (widths r) = length (items r)"
  shows "\<forall>r \<in> set (defensiveCheck align cI gap rows).
           items r \<noteq> [] \<and> length (widths r) = length (items r)"
proof (cases "align \<noteq> AlignJustify \<and> rows \<noteq> []")
  case False
  then show ?thesis using assms by (auto simp: defensiveCheck_def)
next
  case True
  then have l: "last rows \<in> set rows" by simp
  have b: "set (butlast rows) \<subseteq> set rows" by (auto dest: in_set_butlastD)
  show ?thesis
    using True assms l b by (auto simp: defensiveCheck_def Let_def)
qed

lemma layoutRows_lengths:
  "\<forall>r \<in> set (layoutRows align cI gap targetH infos).
     items r \<noteq> [] \<and> length (widths r) = length (items r)"
  unfolding layoutRows_def
proof (rule defensiveCheck_lengths)
  show "\<forall>r \<in> set (secondPass cI gap (firstPass align cI gap targetH infos)).
          items r \<noteq> [] \<and> length (widths r) = length (items r)"
    using firstPass_ok[of align cI gap targetH infos]
    by (auto simp: secondPass_def positionRow_lengths)
qed
















lemma heights_defensiveCheck: "map height (defensiveCheck align cI gap rows) = map height rows"
proof (cases "align \<noteq> AlignJustify \<and> rows \<noteq> []")
  case False
  then show ?thesis by (auto simp: defensiveCheck_def)
next
  case True
  then have "rows = butlast rows @ [last rows]" by simp
  then have "map height rows = map height (butlast rows) @ [height (last rows)]"
    by (metis list.simps(8) list.simps(9) map_append)
  then show ?thesis using True by (simp add: defensiveCheck_def Let_def)
qed


















section \<open>Facts about the viewer\<close>

lemma jsRem_nonneg:
  "0 \<le> a \<Longrightarrow> 0 < n \<Longrightarrow> jsRem (Num a) (Num n) = Num (a mod n)"
  by (cases "a = 0") (simp_all add: sgn_if)

lemma lbShow_in_range_index:
  assumes "0 \<le> j" and "j < int (length (images lb))"
  shows "currentIndex (stateOf (lbShow (Num j) lb)) = Num j"
  using assms by (simp add: lbShow_def Let_def)

text \<open>
  C6. With \<open>n\<close> items, \<open>n\<close> at least 1, and the current index \<open>i\<close> in
  \<open>[0, n)\<close>, \<^verbatim>\<open>next()\<close> is \<^verbatim>\<open>show((i + 1) mod n)\<close> and
  \<^verbatim>\<open>prev()\<close> is \<^verbatim>\<open>show((i - 1 + n) mod n)\<close>, both targets in
  \<open>[0, n)\<close> and taken as the new current index: from \<open>n - 1\<close> next goes to 0, from 0
  prev goes to \<open>n - 1\<close>, and with one item both go to 0.
\<close>

theorem next_prev_wrap_around:
  assumes "currentIndex lb = Num i" and "0 \<le> i" and "i < int (length (images lb))"
  shows "lbNext lb = lbShow (Num ((i + 1) mod int (length (images lb)))) lb \<and>
         lbPrev lb = lbShow (Num ((i - 1 + int (length (images lb)))
                                    mod int (length (images lb)))) lb \<and>
         0 \<le> (i + 1) mod int (length (images lb)) \<and>
         (i + 1) mod int (length (images lb)) < int (length (images lb)) \<and>
         0 \<le> (i - 1 + int (length (images lb))) mod int (length (images lb)) \<and>
         (i - 1 + int (length (images lb))) mod int (length (images lb))
           < int (length (images lb)) \<and>
         currentIndex (stateOf (lbNext lb)) = Num ((i + 1) mod int (length (images lb))) \<and>
         currentIndex (stateOf (lbPrev lb))
           = Num ((i - 1 + int (length (images lb))) mod int (length (images lb))) \<and>
         (i = int (length (images lb)) - 1 \<longrightarrow> lbNext lb = lbShow (Num 0) lb) \<and>
         (i = 0 \<longrightarrow> lbPrev lb = lbShow (Num (int (length (images lb)) - 1)) lb) \<and>
         (length (images lb) = 1 \<longrightarrow>
            lbNext lb = lbShow (Num 0) lb \<and> lbPrev lb = lbShow (Num 0) lb)"
proof -
  let ?n = "int (length (images lb))"
  have n: "0 < ?n" using assms(2,3) by linarith
  have "jsRem (Num (i + 1)) (Num ?n) = Num ((i + 1) mod ?n)"
    using assms(2) n by (intro jsRem_nonneg) linarith+
  then have nx: "lbNext lb = lbShow (Num ((i + 1) mod ?n)) lb"
    by (simp only: lbNext_def assms(1) jsAdd.simps)
  have "jsRem (Num (i - 1 + ?n)) (Num ?n) = Num ((i - 1 + ?n) mod ?n)"
    using assms(2) n by (intro jsRem_nonneg) linarith+
  then have pv: "lbPrev lb = lbShow (Num ((i - 1 + ?n) mod ?n)) lb"
    by (simp only: lbPrev_def assms(1) jsAdd.simps jsSub.simps)
  have r1: "0 \<le> (i + 1) mod ?n" "(i + 1) mod ?n < ?n"
    and r2: "0 \<le> (i - 1 + ?n) mod ?n" "(i - 1 + ?n) mod ?n < ?n"
    using n by simp_all
  have c1: "currentIndex (stateOf (lbNext lb)) = Num ((i + 1) mod ?n)"
    unfolding nx by (rule lbShow_in_range_index[OF r1])
  have c2: "currentIndex (stateOf (lbPrev lb)) = Num ((i - 1 + ?n) mod ?n)"
    unfolding pv by (rule lbShow_in_range_index[OF r2])
  have w1: "i = ?n - 1 \<longrightarrow> lbNext lb = lbShow (Num 0) lb"
    using nx by auto
  have "(?n - 1) mod ?n = ?n - 1"
    using n by (intro mod_pos_pos_trivial) linarith+
  moreover have "0 - 1 + ?n = ?n - 1" by linarith
  ultimately have "(0 - 1 + ?n) mod ?n = ?n - 1" by (simp only:)
  then have w2: "i = 0 \<longrightarrow> lbPrev lb = lbShow (Num (?n - 1)) lb"
    using pv by (intro impI) (simp only:)
  have w3: "length (images lb) = 1 \<longrightarrow>
            lbNext lb = lbShow (Num 0) lb \<and> lbPrev lb = lbShow (Num 0) lb"
    using nx pv assms(2,3) by auto
  from nx pv r1 r2 c1 c2 w1 w2 w3 show ?thesis by blast
qed

theorem next_prev_wrap_around_witness:
  "currentIndex ((newLightBox galleryD)\<lparr>currentIndex := Num 1\<rparr>) = Num 1 \<and>
   (0 :: int) \<le> 1 \<and>
   (1 :: int) < int (length (images ((newLightBox galleryD)\<lparr>currentIndex := Num 1\<rparr>))) \<and>
   lbNext ((newLightBox galleryD)\<lparr>currentIndex := Num 1\<rparr>)
     = lbShow (Num 0) ((newLightBox galleryD)\<lparr>currentIndex := Num 1\<rparr>) \<and>
   currentIndex (stateOf (lbNext ((newLightBox galleryD)\<lparr>currentIndex := Num 1\<rparr>))) = Num 0 \<and>
   currentIndex (stateOf (lbPrev (newLightBox galleryD))) = Num 1"
proof -
  let ?lb = "(newLightBox galleryD)\<lparr>currentIndex := Num 1\<rparr>"
  have a: "currentIndex ?lb = Num 1" by simp
  have b: "(0 :: int) \<le> 1" by simp
  have c: "(1 :: int) < int (length (images ?lb))" by (simp add: newLightBox_def galleryD_def)
  have len: "int (length (images ?lb)) = 2" by (simp add: newLightBox_def galleryD_def)
  from next_prev_wrap_around[OF a b c]
  have nx: "lbNext ?lb = lbShow (Num 0) ?lb"
    and ci: "currentIndex (stateOf (lbNext ?lb)) = Num ((1 + 1) mod int (length (images ?lb)))"
    using len by auto
  have a0: "currentIndex (newLightBox galleryD) = Num 0" by (simp add: newLightBox_def)
  have c0: "(0 :: int) < int (length (images (newLightBox galleryD)))"
    by (simp add: newLightBox_def galleryD_def)
  have len0: "int (length (images (newLightBox galleryD))) = 2"
    by (simp add: newLightBox_def galleryD_def)
  from next_prev_wrap_around[OF a0 order_refl c0]
  have "currentIndex (stateOf (lbPrev (newLightBox galleryD)))
           = Num ((0 - 1 + int (length (images (newLightBox galleryD))))
                    mod int (length (images (newLightBox galleryD))))"
    by blast
  then have pv: "currentIndex (stateOf (lbPrev (newLightBox galleryD))) = Num 1"
    by (simp only: len0) simp
  from ci have ci0: "currentIndex (stateOf (lbNext ?lb)) = Num 0"
    by (simp only: len) simp
  from a b c nx ci0 pv show ?thesis by blast
qed

text \<open>
  C7 says that on an empty item sequence \<^verbatim>\<open>show\<close>, \<^verbatim>\<open>next\<close> and
  \<^verbatim>\<open>prev\<close> change nothing and raise nothing. For \<^verbatim>\<open>show\<close> of an integer
  index that is so. But \<^verbatim>\<open>next()\<close> and \<^verbatim>\<open>prev()\<close> compute a remainder
  by zero, which is \<^verbatim>\<open>NaN\<close>; the range check of \<^verbatim>\<open>show\<close> lets it through, the
  current index becomes \<^verbatim>\<open>NaN\<close>, and reading \<^verbatim>\<open>dataset\<close> of the missing
  wrapper throws a \<^verbatim>\<open>TypeError\<close>.
\<close>

theorem next_prev_on_empty_throw:
  "lbNext (newLightBox []) = Threw TypeError ((newLightBox [])\<lparr>currentIndex := NaN\<rparr>) \<and>
   lbPrev (newLightBox []) = Threw TypeError ((newLightBox [])\<lparr>currentIndex := NaN\<rparr>) \<and>
   lbShow (Num i) (newLightBox []) = Returned (newLightBox [])"
  by (auto simp add: lbNext_def lbPrev_def lbShow_def newLightBox_def)

text \<open>
  C3, as amended. For an index in range whose item has no full-resolution reference,
  \<^verbatim>\<open>show(index)\<close> returns with the viewer as it was except for the current index,
  which it has already set to \<open>index\<close>: no layer is toggled, no load is started (the
  generation counter and the handlers are unchanged), and the caption and the open flag are
  unchanged.
\<close>

theorem show_without_reference_sets_index_only:
  assumes "0 \<le> i" and "i < int (length (images lb))"
    and "\<not> truthy (dataSrc (images lb ! nat i))"
  shows "lbShow (Num i) lb = Returned (lb\<lparr>currentIndex := Num i\<rparr>)"
  using assms by (simp add: lbShow_def Let_def)

lemma opened_galleryD:
  "run [Show (Num 0), Load 1] (newLightBox galleryD) =
     \<lparr>images = galleryD, currentIndex = Num 0, activeLayer = 1, loadId = 1, modalOpen = True,
      imgEls = [\<lparr>visible = False, src = [], onload = None\<rparr>,
                \<lparr>visible = True, src = ''a.jpg'',
                 onload = Some \<lparr>thisLoad = 1, hCaption = ''A'', hNext = 1, hCurr = 0\<rparr>\<rparr>],
      captionText = ''A'', captionVisible = True, preloaded = []\<rparr>"
  by (simp add: run_def newLightBox_def galleryD_def lbShow_def onloadHandler_def truthy_def
        Let_def)

text \<open>
  C3 as stated fails on the current index: with item 0 open and shown, \<^verbatim>\<open>show(1)\<close>
  on the item without a reference moves the current index from 0 to 1.
\<close>

theorem show_without_reference_counterexample:
  "(0 :: int) \<le> 1 \<and>
   (1 :: int) < int (length (images (run [Show (Num 0), Load 1] (newLightBox galleryD)))) \<and>
   dataSrc (images (run [Show (Num 0), Load 1] (newLightBox galleryD)) ! 1) = None \<and>
   currentIndex (run [Show (Num 0), Load 1] (newLightBox galleryD)) = Num 0 \<and>
   currentIndex (stateOf (lbShow (Num 1) (run [Show (Num 0), Load 1] (newLightBox galleryD))))
     = Num 1"
  unfolding opened_galleryD
  by (simp add: galleryD_def lbShow_def truthy_def)

theorem show_without_reference_sets_index_only_witness:
  "(0 :: int) \<le> 1 \<and>
   (1 :: int) < int (length (images (run [Show (Num 0), Load 1] (newLightBox galleryD)))) \<and>
   \<not> truthy (dataSrc (images (run [Show (Num 0), Load 1] (newLightBox galleryD)) ! nat 1)) \<and>
   lbShow (Num 1) (run [Show (Num 0), Load 1] (newLightBox galleryD))
     = Returned ((run [Show (Num 0), Load 1] (newLightBox galleryD))\<lparr>currentIndex := Num 1\<rparr>)"
proof -
  let ?lb = "run [Show (Num 0), Load 1] (newLightBox galleryD)"
  have a: "(0 :: int) \<le> 1" by simp
  have b: "(1 :: int) < int (length (images ?lb))"
    unfolding opened_galleryD by (simp add: galleryD_def)
  have c: "\<not> truthy (dataSrc (images ?lb ! nat 1))"
    unfolding opened_galleryD by (simp add: galleryD_def truthy_def)
  from show_without_reference_sets_index_only[OF a b c] a b c show ?thesis by blast
qed

lemma run_append: "run (before @ after) s = run after (run before s)"
  by (simp add: run_def)

lemma run_Cons: "run (e # after) s = run after (stateOf (step e s))"
  by (simp add: run_def)

lemma loadId_onloadHandler: "loadId (stateOf (onloadHandler h s)) = loadId s"
  by (simp add: onloadHandler_def Let_def split: option.splits)

lemma loadId_lbShow:
  "loadId (stateOf (lbShow index s)) = (if issuesLoad index s then loadId s + 1 else loadId s)"
proof (cases index)
  case NaN
  then show ?thesis by (simp add: lbShow_def issuesLoad_def)
next
  case (Num i)
  show ?thesis
  proof (cases "0 \<le> i \<and> i < int (length (images s))")
    case True
    then show ?thesis
      unfolding Num by (simp add: lbShow_def issuesLoad_def Let_def)
  next
    case False
    then have "i < 0 \<or> int (length (images s)) \<le> i" by linarith
    then show ?thesis
      unfolding Num using False by (auto simp add: lbShow_def issuesLoad_def)
  qed
qed

lemma loadId_step:
  "loadId (stateOf (step e s)) = (if supersedes e s then loadId s + 1 else loadId s)"
proof (cases e)
  case (Show index)
  then show ?thesis by (simp add: loadId_lbShow)
next
  case Next
  then show ?thesis by (simp add: lbNext_def loadId_lbShow)
next
  case Prev
  then show ?thesis by (simp add: lbPrev_def loadId_lbShow)
next
  case Hide
  then show ?thesis by (simp add: lbHide_def)
next
  case (Load k)
  then show ?thesis by (simp add: loadId_onloadHandler split: option.splits)
next
  case (LoadError k)
  then show ?thesis by simp
qed

lemma loadId_run_mono: "loadId s \<le> loadId (run events s)"
proof (induction events arbitrary: s)
  case Nil
  then show ?case by (simp add: run_def)
next
  case (Cons e events)
  have "loadId s \<le> loadId (stateOf (step e s))" by (simp add: loadId_step)
  also have "\<dots> \<le> loadId (run events (stateOf (step e s)))" by (rule Cons.IH)
  finally show ?case by (simp only: run_Cons)
qed

lemma loadId_superseded:
  assumes "supersedes e (run before s)"
  shows "loadId s < loadId (run (before @ e # after) s)"
proof -
  have "loadId s \<le> loadId (run before s)" by (rule loadId_run_mono)
  also have "\<dots> < loadId (stateOf (step e (run before s)))"
    using assms by (simp add: loadId_step)
  also have "\<dots> \<le> loadId (run after (stateOf (step e (run before s))))"
    by (rule loadId_run_mono)
  finally show ?thesis by (simp only: run_append run_Cons)
qed

lemma onloadHandler_stale: "thisLoad h \<noteq> loadId s \<Longrightarrow> onloadHandler h s = Returned s"
  by (simp add: onloadHandler_def)

lemma imgEls_onloadHandler_fresh:
  assumes "thisLoad h = loadId s" and "hNext h < length (imgEls s)" and "hNext h \<noteq> hCurr h"
  shows "visible (imgEls (stateOf (onloadHandler h s)) ! hNext h)"
  using assms by (simp add: onloadHandler_def Let_def split: option.splits)

lemma lbShow_issues:
  assumes "issuesLoad index lb"
  shows "\<exists>wrapper. jsIndex (images lb) index = Some wrapper \<and> truthy (dataSrc wrapper) \<and>
           lbShow index lb =
             Returned (lb\<lparr>currentIndex := index, modalOpen := True, loadId := loadId lb + 1,
                          imgEls := (imgEls lb)[1 - activeLayer lb :=
                             \<lparr>visible = False, src = the (dataSrc wrapper),
                              onload = Some \<lparr>thisLoad = loadId lb + 1,
                                 hCaption = (case dataCaption wrapper of None \<Rightarrow> [] | Some c \<Rightarrow> c),
                                 hNext = 1 - activeLayer lb, hCurr = activeLayer lb\<rparr>\<rparr>]\<rparr>)"
proof -
  from assms obtain wrapper where w: "jsIndex (images lb) index = Some wrapper"
    and t: "truthy (dataSrc wrapper)"
    by (auto simp: issuesLoad_def split: option.splits)
  from w obtain i where i: "index = Num i" "0 \<le> i" "i < int (length (images lb))"
    by (cases index) (auto split: if_splits)
  have "lbShow index lb =
             Returned (lb\<lparr>currentIndex := index, modalOpen := True, loadId := loadId lb + 1,
                          imgEls := (imgEls lb)[1 - activeLayer lb :=
                             \<lparr>visible = False, src = the (dataSrc wrapper),
                              onload = Some \<lparr>thisLoad = loadId lb + 1,
                                 hCaption = (case dataCaption wrapper of None \<Rightarrow> [] | Some c \<Rightarrow> c),
                                 hNext = 1 - activeLayer lb, hCurr = activeLayer lb\<rparr>\<rparr>]\<rparr>)"
    using w t i by (simp add: lbShow_def Let_def)
  with w t show ?thesis by blast
qed

text \<open>
  C2, as amended. A call of \<^verbatim>\<open>show\<close> that starts a load installs on the inactive
  layer a handler that holds the value of the generation counter at that moment, the value
  the call has just given it. Run in a state whose counter is that value, the handler
  reveals the layer; run in any state whose counter differs, it changes nothing. Whatever
  happens next (calls of show, next, prev and close, and load or error events, in any order),
  once one of the later calls has started a load of its own or closed the viewer, the
  completion of the earlier load changes nothing; in particular a load in flight when the
  viewer is closed reveals no layer afterwards.
\<close>

theorem stale_load_is_discarded:
  assumes "issuesLoad index lb" and "1 - activeLayer lb < length (imgEls lb)"
  shows "\<exists>h. onload (imgEls (stateOf (lbShow index lb)) ! (1 - activeLayer lb)) = Some h \<and>
             thisLoad h = loadId (stateOf (lbShow index lb)) \<and>
             loadId (stateOf (lbShow index lb)) = loadId lb + 1 \<and>
             visible (imgEls (stateOf (onloadHandler h (stateOf (lbShow index lb))))
                        ! (1 - activeLayer lb)) \<and>
             (\<forall>s. thisLoad h \<noteq> loadId s \<longrightarrow> onloadHandler h s = Returned s) \<and>
             (\<forall>before e after.
                supersedes e (run before (stateOf (lbShow index lb))) \<longrightarrow>
                  onloadHandler h (run (before @ e # after) (stateOf (lbShow index lb)))
                    = Returned (run (before @ e # after) (stateOf (lbShow index lb)))) \<and>
             (\<forall>before after.
                onloadHandler h (run (before @ Hide # after) (stateOf (lbShow index lb)))
                  = Returned (run (before @ Hide # after) (stateOf (lbShow index lb))))"
proof -
  from lbShow_issues[OF assms(1)] obtain wrapper :: Wrapper where
    sh: "lbShow index lb =
             Returned (lb\<lparr>currentIndex := index, modalOpen := True, loadId := loadId lb + 1,
                          imgEls := (imgEls lb)[1 - activeLayer lb :=
                             \<lparr>visible = False, src = the (dataSrc wrapper),
                              onload = Some \<lparr>thisLoad = loadId lb + 1,
                                 hCaption = (case dataCaption wrapper of None \<Rightarrow> [] | Some c \<Rightarrow> c),
                                 hNext = 1 - activeLayer lb, hCurr = activeLayer lb\<rparr>\<rparr>]\<rparr>)"
    by blast
  define h where "h = \<lparr>thisLoad = loadId lb + 1,
                        hCaption = (case dataCaption wrapper of None \<Rightarrow> [] | Some c \<Rightarrow> c),
                        hNext = 1 - activeLayer lb, hCurr = activeLayer lb\<rparr>"
  let ?s1 = "stateOf (lbShow index lb)"
  have on: "onload (imgEls ?s1 ! (1 - activeLayer lb)) = Some h"
    using assms(2) by (simp add: sh h_def)
  have id1: "loadId ?s1 = loadId lb + 1" by (simp add: sh)
  have th: "thisLoad h = loadId ?s1" by (simp add: sh h_def)
  have hn: "hNext h = 1 - activeLayer lb" by (simp add: h_def)
  have "1 - activeLayer lb \<noteq> activeLayer lb" by (cases "activeLayer lb") simp_all
  then have hc: "hNext h \<noteq> hCurr h" by (simp add: h_def)
  have len: "hNext h < length (imgEls ?s1)" using assms(2) by (simp add: sh h_def)
  have vis: "visible (imgEls (stateOf (onloadHandler h ?s1)) ! (1 - activeLayer lb))"
    using imgEls_onloadHandler_fresh[OF th len hc] by (simp only: hn)
  have stale: "\<forall>s. thisLoad h \<noteq> loadId s \<longrightarrow> onloadHandler h s = Returned s"
    by (simp add: onloadHandler_stale)
  have sup: "onloadHandler h (run (before @ e # after) ?s1) = Returned (run (before @ e # after) ?s1)"
    if "supersedes e (run before ?s1)" for before e after
  proof -
    have "loadId ?s1 < loadId (run (before @ e # after) ?s1)"
      by (rule loadId_superseded[OF that])
    then have "thisLoad h \<noteq> loadId (run (before @ e # after) ?s1)" using th by simp
    then show ?thesis by (rule onloadHandler_stale)
  qed
  have hide: "onloadHandler h (run (before @ Hide # after) ?s1) = Returned (run (before @ Hide # after) ?s1)"
    for before after
    by (rule sup) simp
  from on th id1 vis stale sup hide show ?thesis by blast
qed

lemma shown_galleryD:
  "stateOf (lbShow (Num 0) (newLightBox galleryD)) =
     \<lparr>images = galleryD, currentIndex = Num 0, activeLayer = 0, loadId = 1, modalOpen = True,
      imgEls = [\<lparr>visible = False, src = [], onload = None\<rparr>,
                \<lparr>visible = False, src = ''a.jpg'',
                 onload = Some \<lparr>thisLoad = 1, hCaption = ''A'', hNext = 1, hCurr = 0\<rparr>\<rparr>],
      captionText = [], captionVisible = False, preloaded = []\<rparr>"
  by (simp add: newLightBox_def galleryD_def lbShow_def truthy_def Let_def)

theorem stale_load_is_discarded_witness:
  "issuesLoad (Num 0) (newLightBox galleryD) \<and>
   1 - activeLayer (newLightBox galleryD) < length (imgEls (newLightBox galleryD)) \<and>
   onload (imgEls (stateOf (lbShow (Num 0) (newLightBox galleryD))) ! 1)
     = Some \<lparr>thisLoad = 1, hCaption = ''A'', hNext = 1, hCurr = 0\<rparr> \<and>
   supersedes (Show (Num 0)) (run [] (stateOf (lbShow (Num 0) (newLightBox galleryD)))) \<and>
   onloadHandler \<lparr>thisLoad = 1, hCaption = ''A'', hNext = 1, hCurr = 0\<rparr>
       (run ([] @ Show (Num 0) # []) (stateOf (lbShow (Num 0) (newLightBox galleryD))))
     = Returned (run ([] @ Show (Num 0) # []) (stateOf (lbShow (Num 0) (newLightBox galleryD)))) \<and>
   onloadHandler \<lparr>thisLoad = 1, hCaption = ''A'', hNext = 1, hCurr = 0\<rparr>
       (run ([] @ Hide # [LoadError 1]) (stateOf (lbShow (Num 0) (newLightBox galleryD))))
     = Returned (run ([] @ Hide # [LoadError 1])
                   (stateOf (lbShow (Num 0) (newLightBox galleryD))))"
proof -
  let ?lb0 = "newLightBox galleryD"
  let ?s1 = "stateOf (lbShow (Num 0) ?lb0)"
  let ?h0 = "\<lparr>thisLoad = 1, hCaption = ''A'', hNext = 1, hCurr = 0\<rparr>"
  have a: "issuesLoad (Num 0) ?lb0"
    by (simp add: issuesLoad_def newLightBox_def galleryD_def truthy_def)
  have b: "1 - activeLayer ?lb0 < length (imgEls ?lb0)" by (simp add: newLightBox_def)
  have l: "1 - activeLayer ?lb0 = 1" by (simp add: newLightBox_def)
  have on0: "onload (imgEls ?s1 ! 1) = Some ?h0"
    unfolding shown_galleryD by simp
  have sup: "supersedes (Show (Num 0)) (run [] ?s1)"
    unfolding shown_galleryD by (simp add: run_def issuesLoad_def galleryD_def truthy_def)
  from stale_load_is_discarded[OF a b] obtain h where
    on: "onload (imgEls ?s1 ! (1 - activeLayer ?lb0)) = Some h"
    and disc: "\<forall>before e after.
                supersedes e (run before ?s1) \<longrightarrow>
                  onloadHandler h (run (before @ e # after) ?s1)
                    = Returned (run (before @ e # after) ?s1)"
    and hid: "\<forall>before after.
                onloadHandler h (run (before @ Hide # after) ?s1)
                  = Returned (run (before @ Hide # after) ?s1)"
    by blast
  from on on0 have h: "h = ?h0" by (simp only: l) simp
  from disc sup have c1: "onloadHandler ?h0 (run ([] @ Show (Num 0) # []) ?s1)
     = Returned (run ([] @ Show (Num 0) # []) ?s1)"
    unfolding h by blast
  from hid have c2: "onloadHandler ?h0 (run ([] @ Hide # [LoadError 1]) ?s1)
     = Returned (run ([] @ Hide # [LoadError 1]) ?s1)"
    unfolding h by blast
  from a b on0 sup c1 c2 show ?thesis by blast
qed

text \<open>
  C2 as stated fails for a later call that starts no load: after \<^verbatim>\<open>show(0)\<close>,
  \<^verbatim>\<open>next()\<close> reaches the item without a reference, sets the current index to 1 and
  returns without touching the generation counter; the load of item 0 then completes with
  the counter it captured, reveals its layer and sets the caption.
\<close>

theorem stale_load_counterexample:
  "onload (imgEls (run [Show (Num 0)] (newLightBox galleryD)) ! 1)
     = Some \<lparr>thisLoad = 1, hCaption = ''A'', hNext = 1, hCurr = 0\<rparr> \<and>
   run [Show (Num 0), Next] (newLightBox galleryD)
     = (run [Show (Num 0)] (newLightBox galleryD))\<lparr>currentIndex := Num 1\<rparr> \<and>
   \<not> visible (imgEls (run [Show (Num 0), Next] (newLightBox galleryD)) ! 1) \<and>
   captionText (run [Show (Num 0), Next] (newLightBox galleryD)) = [] \<and>
   visible (imgEls (stateOf (onloadHandler \<lparr>thisLoad = 1, hCaption = ''A'', hNext = 1, hCurr = 0\<rparr>
                       (run [Show (Num 0), Next] (newLightBox galleryD)))) ! 1) \<and>
   captionText (stateOf (onloadHandler \<lparr>thisLoad = 1, hCaption = ''A'', hNext = 1, hCurr = 0\<rparr>
                       (run [Show (Num 0), Next] (newLightBox galleryD)))) = ''A''"
proof -
  have r1: "run [Show (Num 0)] (newLightBox galleryD)
              = stateOf (lbShow (Num 0) (newLightBox galleryD))"
    by (simp add: run_def)
  have "run [Show (Num 0), Next] (newLightBox galleryD)
          = stateOf (lbNext (stateOf (lbShow (Num 0) (newLightBox galleryD))))"
    by (simp add: run_def)
  also have "\<dots> = (stateOf (lbShow (Num 0) (newLightBox galleryD)))\<lparr>currentIndex := Num 1\<rparr>"
    unfolding shown_galleryD
    by (simp add: lbNext_def lbShow_def galleryD_def truthy_def)
  finally have r2: "run [Show (Num 0), Next] (newLightBox galleryD)
              = (stateOf (lbShow (Num 0) (newLightBox galleryD)))\<lparr>currentIndex := Num 1\<rparr>" .
  show ?thesis
    unfolding r2 r1 shown_galleryD
    by (simp add: onloadHandler_def galleryD_def truthy_def Let_def)
qed

text \<open>
  In every state that a viewer reaches from its construction the inactive layer exists, as the
  theorem on stale loads asks.
\<close>

lemma layersOk_lbShow: "layersOk lb \<Longrightarrow> layersOk (stateOf (lbShow index lb))"
  by (simp add: lbShow_def layersOk_def Let_def split: option.splits)

lemma layersOk_onloadHandler: "layersOk lb \<Longrightarrow> layersOk (stateOf (onloadHandler h lb))"
  by (simp add: onloadHandler_def layersOk_def Let_def split: option.splits)

lemma layersOk_step: "layersOk lb \<Longrightarrow> layersOk (stateOf (step e lb))"
  by (cases e)
     (simp_all add: layersOk_lbShow layersOk_onloadHandler lbNext_def lbPrev_def
        split: option.splits, simp add: lbHide_def layersOk_def)

lemma layersOk_run: "layersOk lb \<Longrightarrow> layersOk (run events lb)"
proof (induction events arbitrary: lb)
  case Nil
  then show ?case by (simp add: run_def)
next
  case (Cons e events)
  from Cons.IH[OF layersOk_step[OF Cons.prems]] show ?case by (simp only: run_Cons)
qed

lemma layersOk_reachable:
  "layersOk (run events (newLightBox imgs)) \<and>
   1 - activeLayer (run events (newLightBox imgs)) < length (imgEls (run events (newLightBox imgs)))"
proof -
  have "layersOk (newLightBox imgs)" by (simp add: layersOk_def newLightBox_def)
  then have "layersOk (run events (newLightBox imgs))" by (rule layersOk_run)
  then show ?thesis by (simp add: layersOk_def)
qed

end
